theory Spec2Isabelle
  imports Main
begin

section \<open>JavaScript values\<close>

text \<open>
  The scripts under verification are browser scripts.  Their data are JavaScript
  values; the fields of the JSON bodies they read (\<open>success\<close>, \<open>message\<close>,
  \<open>process_id\<close>, \<open>completed\<close>, \<open>error\<close>, ...) are modelled by \<open>jsval\<close>, where
  \<open>JNum\<close> stands for the integer-valued numbers.  \<open>truthy\<close> is the coercion that
  \<open>if (x)\<close>, \<open>!x\<close> and \<open>x || y\<close> apply.
\<close>

datatype jsval = JUndefined | JNull | JBool bool | JNum int | JStr string

fun truthy :: "jsval \<Rightarrow> bool" where
  "truthy JUndefined = False"
| "truthy JNull = False"
| "truthy (JBool b) = b"
| "truthy (JNum n) = (n \<noteq> 0)"
| "truthy (JStr s) = (s \<noteq> [])"

definition js_or :: "jsval \<Rightarrow> jsval \<Rightarrow> jsval" where
  "js_or a b = (if truthy a then a else b)"

fun show_nat :: "nat \<Rightarrow> string" where
  "show_nat n = (if n < 10 then [char_of (48 + n)]
                 else show_nat (n div 10) @ [char_of (48 + n mod 10)])"

definition show_int :: "int \<Rightarrow> string" where
  "show_int i = (if i < 0 then CHR ''-'' # show_nat (nat (- i)) else show_nat (nat i))"

fun to_string :: "jsval \<Rightarrow> string" where
  "to_string JUndefined = ''undefined''"
| "to_string JNull = ''null''"
| "to_string (JBool b) = (if b then ''true'' else ''false'')"
| "to_string (JNum n) = show_int n"
| "to_string (JStr s) = s"

text \<open>Labels of the pages that are not ASCII, as their UTF-8 bytes.\<close>

definition sym_hourglass :: string where
  "sym_hourglass = [CHR 0xE2, CHR 0x8F, CHR 0xB3]"

definition sym_check :: string where
  "sym_check = [CHR 0xE2, CHR 0x9C, CHR 0x85]"

definition sym_no_entry :: string where
  "sym_no_entry = [CHR 0xF0, CHR 0x9F, CHR 0x9A, CHR 0xAB]"

definition sym_outbox :: string where
  "sym_outbox = [CHR 0xF0, CHR 0x9F, CHR 0x93, CHR 0xA4]"

definition sym_party :: string where
  "sym_party = [CHR 0xF0, CHR 0x9F, CHR 0x8E, CHR 0x89]"

definition sym_bullet :: string where
  "sym_bullet = [CHR 0xE2, CHR 0x80, CHR 0xA2]"

section \<open>Objects with string values and their JSON text\<close>

text \<open>
  \<open>uploadStatus\<close> is a JavaScript object whose values are strings.  An object
  enumerates its own keys in insertion order, so it is an association list;
  \<open>obj_set\<close> is the assignment \<open>o[k] = v\<close> (an existing key keeps its place, a
  new key goes last) and \<open>obj_get\<close> the read \<open>o[k]\<close> (\<open>None\<close> for
  \<open>undefined\<close>).  Keys that are array indices, which an engine enumerates
  first, and the properties inherited from \<open>Object.prototype\<close> are left out:
  no upload type or status of the pages is of that kind.  Strings are
  sequences of code units below 256.
\<close>

type_synonym jsobj = "(string \<times> string) list"

fun obj_set :: "jsobj \<Rightarrow> string \<Rightarrow> string \<Rightarrow> jsobj" where
  "obj_set [] k v = [(k, v)]"
| "obj_set ((k', v') # m) k v = (if k' = k then (k, v) # m else (k', v') # obj_set m k v)"

definition obj_get :: "jsobj \<Rightarrow> string \<Rightarrow> string option" where
  "obj_get m k = map_of m k"

definition obj_keys :: "jsobj \<Rightarrow> string list" where
  "obj_keys m = map fst m"

definition obj_values :: "jsobj \<Rightarrow> string list" where
  "obj_values m = map snd m"

text \<open>
  \<open>JSON.stringify\<close> on such an object: the members in enumeration order, keys
  and values as JSON string literals.  A literal escapes the quotation mark, the
  reverse solidus and the control characters below U+0020 (the five short
  forms, otherwise \<open>\u00XX\<close> with lower-case hexadecimal digits).
\<close>

definition hex_digit :: "nat \<Rightarrow> char" where
  "hex_digit d = (if d < 10 then char_of (48 + d) else char_of (87 + d))"

definition json_escape :: "char \<Rightarrow> string" where
  "json_escape c =
     (if c = CHR 0x22 then [CHR 0x5C, CHR 0x22]
      else if c = CHR 0x5C then [CHR 0x5C, CHR 0x5C]
      else if c = CHR 0x08 then [CHR 0x5C, CHR ''b'']
      else if c = CHR 0x0C then [CHR 0x5C, CHR ''f'']
      else if c = CHR 0x0A then [CHR 0x5C, CHR ''n'']
      else if c = CHR 0x0D then [CHR 0x5C, CHR ''r'']
      else if c = CHR 0x09 then [CHR 0x5C, CHR ''t'']
      else if (of_char c :: nat) < 32
        then [CHR 0x5C, CHR ''u'', CHR ''0'', CHR ''0'',
              hex_digit ((of_char c :: nat) div 16), hex_digit ((of_char c :: nat) mod 16)]
      else [c])"

definition json_quote :: "string \<Rightarrow> string" where
  "json_quote s = CHR 0x22 # concat (map json_escape s) @ [CHR 0x22]"

definition json_member :: "string \<times> string \<Rightarrow> string" where
  "json_member kv = json_quote (fst kv) @ CHR '':'' # json_quote (snd kv)"

fun json_members :: "jsobj \<Rightarrow> string" where
  "json_members [] = []"
| "json_members [kv] = json_member kv"
| "json_members (kv # rest) = json_member kv @ CHR '','' # json_members rest"

definition JSON_stringify :: "jsobj \<Rightarrow> string" where
  "JSON_stringify m = CHR ''{'' # json_members m @ ''}''"

text \<open>
  \<open>JSON.parse\<close>, on the texts that denote an object whose values are strings:
  a lexer (white space between tokens, string literals with their escapes) and
  the member grammar \<open>{ "k" : "v" , ... }\<close>.  A repeated key keeps its first
  position and takes the last value, as the assignment into the result object
  does.  \<open>None\<close> stands for the \<open>SyntaxError\<close> of an ill-formed text and also
  for every text whose value lies outside this data model (a number, an array,
  a nested object, a code unit above 255).
\<close>

datatype jtoken = TLBrace | TRBrace | TColon | TComma | TStr string

datatype lexmode = Outside | InStr string | Esc string | Uni string "nat list"

definition is_json_ws :: "char \<Rightarrow> bool" where
  "is_json_ws c = (c = CHR '' '' \<or> c = CHR 0x09 \<or> c = CHR 0x0A \<or> c = CHR 0x0D)"

definition hex_value :: "char \<Rightarrow> nat option" where
  "hex_value c =
     (let n = (of_char c :: nat) in
      if 48 \<le> n \<and> n \<le> 57 then Some (n - 48)
      else if 97 \<le> n \<and> n \<le> 102 then Some (n - 87)
      else if 65 \<le> n \<and> n \<le> 70 then Some (n - 55)
      else None)"

definition simple_escape :: "char \<Rightarrow> char option" where
  "simple_escape e =
     (if e = CHR 0x22 then Some (CHR 0x22)
      else if e = CHR 0x5C then Some (CHR 0x5C)
      else if e = CHR ''/'' then Some (CHR ''/'')
      else if e = CHR ''b'' then Some (CHR 0x08)
      else if e = CHR ''f'' then Some (CHR 0x0C)
      else if e = CHR ''n'' then Some (CHR 0x0A)
      else if e = CHR ''r'' then Some (CHR 0x0D)
      else if e = CHR ''t'' then Some (CHR 0x09)
      else None)"

fun lex_step :: "jtoken list \<times> lexmode \<Rightarrow> char \<Rightarrow> (jtoken list \<times> lexmode) option" where
  "lex_step (toks, Outside) c =
     (if is_json_ws c then Some (toks, Outside)
      else if c = CHR ''{'' then Some (toks @ [TLBrace], Outside)
      else if c = CHR ''}'' then Some (toks @ [TRBrace], Outside)
      else if c = CHR '':'' then Some (toks @ [TColon], Outside)
      else if c = CHR '','' then Some (toks @ [TComma], Outside)
      else if c = CHR 0x22 then Some (toks, InStr [])
      else None)"
| "lex_step (toks, InStr acc) c =
     (if c = CHR 0x22 then Some (toks @ [TStr acc], Outside)
      else if c = CHR 0x5C then Some (toks, Esc acc)
      else if (of_char c :: nat) < 32 then None
      else Some (toks, InStr (acc @ [c])))"
| "lex_step (toks, Esc acc) c =
     (if c = CHR ''u'' then Some (toks, Uni acc [])
      else (case simple_escape c of
              None \<Rightarrow> None
            | Some ch \<Rightarrow> Some (toks, InStr (acc @ [ch]))))"
| "lex_step (toks, Uni acc ds) c =
     (case hex_value c of
        None \<Rightarrow> None
      | Some d \<Rightarrow>
          if length ds < 3 then Some (toks, Uni acc (ds @ [d]))
          else (let n = foldl (\<lambda>a x. a * 16 + x) 0 (ds @ [d])
                in if n < 256 then Some (toks, InStr (acc @ [char_of n])) else None))"

fun lex_run :: "jtoken list \<times> lexmode \<Rightarrow> string \<Rightarrow> (jtoken list \<times> lexmode) option" where
  "lex_run st [] = Some st"
| "lex_run st (c # cs) = (case lex_step st c of None \<Rightarrow> None | Some st' \<Rightarrow> lex_run st' cs)"

definition json_lex :: "string \<Rightarrow> jtoken list option" where
  "json_lex s = (case lex_run ([], Outside) s of
                   Some (toks, Outside) \<Rightarrow> Some toks
                 | _ \<Rightarrow> None)"

fun parse_members :: "jsobj \<Rightarrow> jtoken list \<Rightarrow> jsobj option" where
  "parse_members acc (TStr k # TColon # TStr v # TComma # ts) = parse_members (obj_set acc k v) ts"
| "parse_members acc [TStr k, TColon, TStr v, TRBrace] = Some (obj_set acc k v)"
| "parse_members acc ts = None"

definition JSON_parse :: "string \<Rightarrow> jsobj option" where
  "JSON_parse s =
     (case json_lex s of
        None \<Rightarrow> None
      | Some ts \<Rightarrow>
          (case ts of
             [TLBrace, TRBrace] \<Rightarrow> Some []
           | TLBrace # ms \<Rightarrow> parse_members [] ms
           | _ \<Rightarrow> None))"

text \<open>The token sequence of the members that \<open>JSON.stringify\<close> writes.\<close>

fun member_tokens :: "jsobj \<Rightarrow> jtoken list" where
  "member_tokens [] = []"
| "member_tokens [kv] = [TStr (fst kv), TColon, TStr (snd kv)]"
| "member_tokens (kv # rest) = [TStr (fst kv), TColon, TStr (snd kv), TComma] @ member_tokens rest"

section \<open>The document and the page state\<close>

text \<open>
  The document is the list of its elements in document order; a node is its
  index.  An element carries the attributes and properties the scripts read or
  write: tag name, \<open>id\<close>, class list, \<open>data-upload\<close>, \<open>data-upload-type\<close>, its
  parent node (\<open>None\<close> for a child of the document itself), \<open>disabled\<close>,
  \<open>innerHTML\<close> (also written through \<open>textContent\<close>), \<open>style.display\<close>,
  \<open>style.background\<close>, the \<open>required\<close>, \<open>value\<close> and \<open>type\<close> of a form control,
  the number of files selected in it and the \<open>action\<close> of a form.
  \<open>bar_width = Some (c, t)\<close> records that \<open>style.width\<close> was assigned the text
  of \<open>(c / t) * 100\<close> followed by a percent sign.
\<close>

record element =
  tag :: string
  el_id :: string
  classes :: "string list"
  data_upload :: "string option"
  data_upload_type :: "string option"
  parent :: "nat option"
  disabled :: bool
  innerHTML :: string
  display :: string
  background :: string
  bar_width :: "(nat \<times> nat) option"
  required :: bool
  el_value :: string
  input_type :: string
  files :: nat
  action_url :: string

type_synonym document = "element list"

definition has_class :: "element \<Rightarrow> string \<Rightarrow> bool" where
  "has_class e c = (c \<in> set (classes e))"

text \<open>\<open>classList.add\<close>, \<open>classList.remove\<close>.\<close>

definition add_class :: "string \<Rightarrow> element \<Rightarrow> element" where
  "add_class c e = e\<lparr>classes := (if c \<in> set (classes e) then classes e else classes e @ [c])\<rparr>"

definition remove_classes :: "string list \<Rightarrow> element \<Rightarrow> element" where
  "remove_classes cs e = e\<lparr>classes := filter (\<lambda>c. c \<notin> set cs) (classes e)\<rparr>"

text \<open>
  Selector queries.  \<open>nodes_where\<close> is \<open>querySelectorAll\<close> (all matching nodes in
  document order), \<open>first_where\<close> is \<open>querySelector\<close> (the first one, \<open>None\<close>
  for \<open>null\<close>).  A query on an element ranges over its descendants, which
  \<open>is_desc\<close> finds by walking up the parent chain.  The selectors that the
  scripts build from an upload type or a status are read as the attribute or
  class test they denote for a name without quotation marks or escapes.
\<close>

definition nodes_where :: "document \<Rightarrow> (nat \<Rightarrow> bool) \<Rightarrow> nat list" where
  "nodes_where d P = filter P [0..<length d]"

definition first_where :: "document \<Rightarrow> (nat \<Rightarrow> bool) \<Rightarrow> nat option" where
  "first_where d P = (case nodes_where d P of [] \<Rightarrow> None | i # _ \<Rightarrow> Some i)"

primrec below :: "document \<Rightarrow> nat \<Rightarrow> nat \<Rightarrow> nat \<Rightarrow> bool" where
  "below d 0 a n = False"
| "below d (Suc k) a n =
     (n < length d \<and>
      (case parent (d ! n) of None \<Rightarrow> False | Some q \<Rightarrow> q = a \<or> below d k a q))"

definition is_desc :: "document \<Rightarrow> nat \<Rightarrow> nat \<Rightarrow> bool" where
  "is_desc d a n = below d (length d) a n"

definition getElementById :: "document \<Rightarrow> string \<Rightarrow> nat option" where
  "getElementById d s = first_where d (\<lambda>i. s \<noteq> [] \<and> el_id (d ! i) = s)"

definition query_data_upload :: "document \<Rightarrow> string \<Rightarrow> nat option" where
  "query_data_upload d t = first_where d (\<lambda>i. data_upload (d ! i) = Some t)"

definition query_class :: "document \<Rightarrow> string \<Rightarrow> nat option" where
  "query_class d c = first_where d (\<lambda>i. has_class (d ! i) c)"

definition query_all_class :: "document \<Rightarrow> string \<Rightarrow> nat list" where
  "query_all_class d c = nodes_where d (\<lambda>i. has_class (d ! i) c)"

definition query_in :: "document \<Rightarrow> nat \<Rightarrow> (element \<Rightarrow> bool) \<Rightarrow> nat option" where
  "query_in d root P = first_where d (\<lambda>i. is_desc d root i \<and> P (d ! i))"

definition query_all_in :: "document \<Rightarrow> nat \<Rightarrow> (element \<Rightarrow> bool) \<Rightarrow> nat list" where
  "query_all_in d root P = nodes_where d (\<lambda>i. is_desc d root i \<and> P (d ! i))"

text \<open>
  A write to one node, and the same write to every node of a node list (a
  \<open>forEach\<close> whose callback touches only its own element).
\<close>

definition modify :: "nat \<Rightarrow> (element \<Rightarrow> element) \<Rightarrow> document \<Rightarrow> document" where
  "modify i f d = d[i := f (d ! i)]"

definition modify_all :: "nat list \<Rightarrow> (element \<Rightarrow> element) \<Rightarrow> document \<Rightarrow> document" where
  "modify_all ns f d = map (\<lambda>j. if j \<in> set ns then f (d ! j) else d ! j) [0..<length d]"

text \<open>
  \<open>dataset.upload\<close> of an element without the attribute is \<open>undefined\<close>; used as
  a property key or concatenated with a string it becomes the text
  \<open>undefined\<close>.
\<close>

definition dataset_key :: "string option \<Rightarrow> string" where
  "dataset_key a = (case a of None \<Rightarrow> ''undefined'' | Some s \<Rightarrow> s)"

text \<open>
  What a page shows or sends besides the document is kept as a trace of
  events: console output, toasts (a toast is known by the position of its
  \<open>ToastShown\<close> event in the trace), the completion modal, requests.  The
  callbacks given to \<open>setTimeout\<close> are the pending \<open>timers\<close>, each with its
  delay in milliseconds.
\<close>

datatype event =
    ConsoleWarn string
  | ConsoleError string
  | ToastShown string string
  | ToastOpacity nat string
  | ToastRemoved nat
  | ModalShown
  | FetchPost string
  | NativeSubmit nat
  | Analytics string string

datatype action =
    ToastFadeIn nat
  | ToastFadeOut nat
  | ToastRemove nat
  | SelectNextUpload
  | AllUploadsCompleted
  | RestoreButton nat string

datatype error = TypeError | SyntaxError

record page =
  uploadStatus :: jsobj
  sessionStorage :: "string \<rightharpoonup> string"
  doc :: document
  trace :: "event list"
  timers :: "(nat \<times> action) list"
  locale_time :: string
  gtag_defined :: bool

definition emit :: "event \<Rightarrow> page \<Rightarrow> page" where
  "emit ev p = p\<lparr>trace := trace p @ [ev]\<rparr>"

definition setTimeout :: "action \<Rightarrow> nat \<Rightarrow> page \<Rightarrow> page" where
  "setTimeout a ms p = p\<lparr>timers := timers p @ [(ms, a)]\<rparr>"

section \<open>The user upload page: \<open>user-upload_app.js\<close>\<close>

definition categories :: "string list" where
  "categories = [''health-center'', ''hmis-api'', ''temperature'', ''precipitation'']"

definition labels :: "string list" where
  "labels = [''available'', ''processing'', ''completed'', ''disabled'']"

text \<open>The initial value of \<open>uploadStatus\<close>.\<close>

definition initial_status :: jsobj where
  "initial_status =
     [(''health-center'', ''available''), (''hmis-api'', ''available''),
      (''temperature'', ''available''), (''precipitation'', ''available'')]"

definition saveUploadStatus :: "page \<Rightarrow> page" where
  "saveUploadStatus p =
     p\<lparr>sessionStorage := (sessionStorage p)(''uploadStatus'' \<mapsto> JSON_stringify (uploadStatus p))\<rparr>"

definition status_text :: "string \<Rightarrow> string" where
  "status_text s =
     (if s = ''available'' then ''AVAILABLE''
      else if s = ''processing'' then ''UPLOADING''
      else if s = ''completed'' then ''COMPLETED''
      else if s = ''disabled'' then ''DISABLED''
      else ''AVAILABLE'')"

definition updateStatusBadge :: "document \<Rightarrow> nat \<Rightarrow> string \<Rightarrow> document" where
  "updateStatusBadge d uploadItem status =
     (case query_in d uploadItem (\<lambda>e. has_class e ''status-badge'') of
        None \<Rightarrow> d
      | Some badge \<Rightarrow>
          modify badge (\<lambda>e. e\<lparr>innerHTML := status_text status,
                               classes := [''status-badge'', status]\<rparr>) d)"

definition updateStatusIcon :: "document \<Rightarrow> nat \<Rightarrow> string \<Rightarrow> document" where
  "updateStatusIcon d uploadItem status =
     (let icons = query_all_in d uploadItem (\<lambda>e. has_class e ''status-icon'');
          d1 = modify_all icons (\<lambda>e. e\<lparr>display := ''none''\<rparr>) d
      in case query_in d1 uploadItem
                (\<lambda>e. has_class e ''status-icon'' \<and> has_class e status) of
           None \<Rightarrow> d1
         | Some activeIcon \<Rightarrow> modify activeIcon (\<lambda>e. e\<lparr>display := ''inline-block''\<rparr>) d1)"

definition getOriginalButtonText :: "string option \<Rightarrow> string" where
  "getOriginalButtonText uploadType =
     (if uploadType = Some ''health-center'' then sym_outbox @ '' Upload Health Records''
      else if uploadType = Some ''hmis-api'' then sym_outbox @ '' Upload HMIS Data''
      else if uploadType = Some ''temperature'' then sym_outbox @ '' Upload Temperature Data''
      else if uploadType = Some ''precipitation'' then sym_outbox @ '' Upload Precipitation Data''
      else sym_outbox @ '' Upload Data'')"

definition is_form_input :: "element \<Rightarrow> bool" where
  "is_form_input e = (tag e = ''input'' \<or> tag e = ''select'' \<or> tag e = ''textarea'')"

definition updateFormState :: "document \<Rightarrow> nat \<Rightarrow> string \<Rightarrow> document" where
  "updateFormState d uploadSection status =
     (let submitBtn = query_in d uploadSection (\<lambda>e. has_class e ''submit-btn'');
          formInputs = query_all_in d uploadSection is_form_input
      in if status = ''completed'' \<or> status = ''disabled'' then
           (let d1 = modify_all formInputs (\<lambda>e. e\<lparr>disabled := True\<rparr>) d
            in case submitBtn of
                 None \<Rightarrow> d1
               | Some b \<Rightarrow>
                   modify b (\<lambda>e. if status = ''completed''
                       then e\<lparr>disabled := True,
                              innerHTML := sym_check @ '' Upload Completed'',
                              background := ''#28a745''\<rparr>
                       else e\<lparr>disabled := True,
                              innerHTML := sym_no_entry @ '' Upload Disabled'',
                              background := ''#6c757d''\<rparr>) d1)
         else
           (let d1 = modify_all formInputs (\<lambda>e. e\<lparr>disabled := False\<rparr>) d
            in case submitBtn of
                 None \<Rightarrow> d1
               | Some b \<Rightarrow>
                   modify b (\<lambda>e. e\<lparr>disabled := False,
                                     innerHTML := getOriginalButtonText (data_upload_type e),
                                     background := []\<rparr>) d1))"

definition completed_count :: "jsobj \<Rightarrow> nat" where
  "completed_count m = length (filter (\<lambda>s. s = ''completed'') (obj_values m))"

definition updateProgressBar :: "page \<Rightarrow> page" where
  "updateProgressBar p =
     (let totalUploads = length (obj_keys (uploadStatus p));
          completedUploads = completed_count (uploadStatus p)
      in case query_class (doc p) ''progress-bar'' of
           None \<Rightarrow> p
         | Some progressBar \<Rightarrow>
             p\<lparr>doc := modify progressBar
                   (\<lambda>e. e\<lparr>bar_width := Some (completedUploads, totalUploads)\<rparr>) (doc p)\<rparr>)"

definition getSessionStatusText :: "page \<Rightarrow> string" where
  "getSessionStatusText p =
     ''Session: '' @ show_nat (completed_count (uploadStatus p)) @ ''/''
       @ show_nat (length (obj_keys (uploadStatus p))) @ '' completed '' @ sym_bullet @ '' ''
       @ locale_time p"

definition updateSessionStatus :: "page \<Rightarrow> page" where
  "updateSessionStatus p =
     (case query_class (doc p) ''session-status'' of
        None \<Rightarrow> p
      | Some sessionIndicator \<Rightarrow>
          p\<lparr>doc := modify sessionIndicator
                (\<lambda>e. e\<lparr>innerHTML := getSessionStatusText p\<rparr>) (doc p)\<rparr>)"

text \<open>
  \<open>updateUploadState(uploadType, status)\<close>: without both the sidebar item and the
  form section it warns and returns; otherwise it rewrites the status classes,
  the badge, the icons and the form, stores the status, saves the map and
  refreshes the progress indicators.
\<close>

definition updateUploadState :: "page \<Rightarrow> string \<Rightarrow> string \<Rightarrow> page" where
  "updateUploadState p uploadType status =
     (case (query_data_upload (doc p) uploadType,
            getElementById (doc p) (uploadType @ ''-form'')) of
        (Some uploadItem, Some uploadSection) \<Rightarrow>
          (let d1 = modify uploadItem (remove_classes labels) (doc p);
               d2 = modify uploadSection (remove_classes labels) d1;
               d3 = modify uploadItem (add_class status) d2;
               d4 = modify uploadSection (add_class status) d3;
               d5 = updateStatusBadge d4 uploadItem status;
               d6 = updateStatusIcon d5 uploadItem status;
               d7 = updateFormState d6 uploadSection status;
               p1 = p\<lparr>doc := d7,
                       uploadStatus := obj_set (uploadStatus p) uploadType status\<rparr>
           in updateSessionStatus (updateProgressBar (saveUploadStatus p1)))
      | _ \<Rightarrow> emit (ConsoleWarn (''Could not find elements for upload type: '' @ uploadType)) p)"

text \<open>Both elements that \<open>updateUploadState\<close> looks up are present.\<close>

definition has_elements :: "page \<Rightarrow> string \<Rightarrow> bool" where
  "has_elements p t = (query_data_upload (doc p) t \<noteq> None \<and> getElementById (doc p) (t @ ''-form'') \<noteq> None)"

text \<open>
  \<open>showToast\<close> appends the toast to the body, fades it in after 100 ms and fades
  it out after 4000 ms; the fade-out callback sets the removal 300 ms later.
\<close>

definition showToast :: "string \<Rightarrow> string \<Rightarrow> page \<Rightarrow> page" where
  "showToast message kind p =
     (let toast = length (trace p)
      in setTimeout (ToastFadeOut toast) 4000
           (setTimeout (ToastFadeIn toast) 100
              (emit (ToastShown message kind) p)))"

text \<open>\<open>showCompletionModal\<close> appends the modal and its style sheet.\<close>

definition showCompletionModal :: "page \<Rightarrow> page" where
  "showCompletionModal p = emit ModalShown p"

definition handleSectionSwitch :: "page \<Rightarrow> nat \<Rightarrow> page" where
  "handleSectionSwitch p clickedItem =
     (let allItems = query_all_class (doc p) ''upload-item'';
          allSections = query_all_class (doc p) ''upload-section'';
          d1 = modify_all allItems (remove_classes [''active'']) (doc p);
          d2 = modify_all allSections (remove_classes [''active'']) d1;
          d3 = modify clickedItem (add_class ''active'') d2;
          uploadType = dataset_key (data_upload (d3 ! clickedItem))
      in case getElementById d3 (uploadType @ ''-form'') of
           None \<Rightarrow> p\<lparr>doc := d3\<rparr>
         | Some targetForm \<Rightarrow> p\<lparr>doc := modify targetForm (add_class ''active'') d3\<rparr>)"

definition selectNextAvailableUpload :: "page \<Rightarrow> page" where
  "selectNextAvailableUpload p =
     (case nodes_where (doc p)
             (\<lambda>i. has_class (doc p ! i) ''upload-item''
                  \<and> \<not> has_class (doc p ! i) ''completed''
                  \<and> \<not> has_class (doc p ! i) ''disabled'') of
        [] \<Rightarrow> p
      | first # _ \<Rightarrow>
          (let d1 = modify_all (query_all_class (doc p) ''upload-item'')
                      (remove_classes [''active'']) (doc p);
               d2 = modify first (add_class ''active'') d1
           in handleSectionSwitch (p\<lparr>doc := d2\<rparr>) first))"


text \<open>
  \<open>updateAllUploadStates\<close>: every key of the map is updated with the status the
  map holds for it (a key that \<open>Object.keys\<close> has listed is still in the map
  when its turn comes, nothing deletes one), then the next available section
  is selected when the active one is completed.
\<close>

fun update_each :: "page \<Rightarrow> string list \<Rightarrow> page" where
  "update_each p [] = p"
| "update_each p (uploadType # rest) =
     update_each (case obj_get (uploadStatus p) uploadType of
                    None \<Rightarrow> p
                  | Some status \<Rightarrow> updateUploadState p uploadType status) rest"

definition updateAllUploadStates :: "page \<Rightarrow> page" where
  "updateAllUploadStates p =
     (let p1 = update_each p (obj_keys (uploadStatus p))
      in case first_where (doc p1)
                (\<lambda>i. has_class (doc p1 ! i) ''upload-item'' \<and> has_class (doc p1 ! i) ''active'') of
           None \<Rightarrow> p1
         | Some activeItem \<Rightarrow>
             if obj_get (uploadStatus p1) (dataset_key (data_upload (doc p1 ! activeItem)))
                  = Some ''completed''
             then selectNextAvailableUpload p1 else p1)"

text \<open>
  \<open>loadUploadStatus\<close>: a missing or empty entry is falsy and leaves the page as
  it is; \<open>JSON.parse\<close> may throw (\<open>Inl\<close>, which here also covers a stored text
  whose value is not an object with string values).
\<close>

definition loadUploadStatus :: "page \<Rightarrow> error + page" where
  "loadUploadStatus p =
     (case sessionStorage p ''uploadStatus'' of
        None \<Rightarrow> Inr p
      | Some savedStatus \<Rightarrow>
          if savedStatus = [] then Inr p
          else (case JSON_parse savedStatus of
                  None \<Rightarrow> Inl SyntaxError
                | Some m \<Rightarrow> Inr (updateAllUploadStates (p\<lparr>uploadStatus := m\<rparr>))))"

definition getUploadDisplayName :: "string \<Rightarrow> string" where
  "getUploadDisplayName uploadType =
     (if uploadType = ''health-center'' then ''Health Center Data''
      else if uploadType = ''hmis-api'' then ''HMIS API Data''
      else if uploadType = ''temperature'' then ''Temperature Data''
      else if uploadType = ''precipitation'' then ''Precipitation Data''
      else ''Data'')"

definition all_done :: "jsobj \<Rightarrow> bool" where
  "all_done m = list_all (\<lambda>status. status = ''completed'' \<or> status = ''disabled'') (obj_values m)"

definition checkAllUploadsCompleted :: "page \<Rightarrow> page" where
  "checkAllUploadsCompleted p =
     (if all_done (uploadStatus p) then setTimeout AllUploadsCompleted 2000 p else p)"

definition handleUploadSuccess :: "page \<Rightarrow> string \<Rightarrow> page" where
  "handleUploadSuccess p uploadType =
     (let p1 = updateUploadState p uploadType ''completed'';
          p2 = showToast (getUploadDisplayName uploadType @ '' uploaded successfully! '' @ sym_check)
                 ''success'' p1;
          p3 = setTimeout SelectNextUpload 1500 p2
      in checkAllUploadsCompleted p3)"

definition handleUploadFailure :: "page \<Rightarrow> string \<Rightarrow> page" where
  "handleUploadFailure p uploadType =
     showToast (getUploadDisplayName uploadType @ '' upload failed. Please try again.'') ''error''
       (updateUploadState p uploadType ''available'')"

text \<open>
  \<open>handleRealDjangoSubmission\<close> issues the request; \<open>upload_settled\<close> is what its
  promise chain does once the request has settled.  A rejected request, a body
  that is not JSON and a body without properties (\<open>null\<close>) all reach the
  \<open>catch\<close> callback: \<open>Rejected\<close>.  \<open>Answered s\<close> is a parsed body whose
  \<open>success\<close> field is \<open>s\<close>.
\<close>

datatype upload_outcome = Rejected | Answered jsval

definition handleRealDjangoSubmission :: "page \<Rightarrow> nat \<Rightarrow> string \<Rightarrow> page" where
  "handleRealDjangoSubmission p form uploadType = emit (FetchPost (action_url (doc p ! form))) p"

definition upload_settled :: "page \<Rightarrow> string \<Rightarrow> upload_outcome \<Rightarrow> page" where
  "upload_settled p uploadType outcome =
     (case outcome of
        Rejected \<Rightarrow> handleUploadFailure p uploadType
      | Answered success \<Rightarrow>
          if truthy success then handleUploadSuccess p uploadType
          else handleUploadFailure p uploadType)"

definition setButtonLoadingState :: "page \<Rightarrow> nat \<Rightarrow> string \<Rightarrow> page" where
  "setButtonLoadingState p button originalText =
     p\<lparr>doc := modify button
           (\<lambda>e. add_class ''loading''
                  (e\<lparr>disabled := True, innerHTML := sym_hourglass @ '' Uploading...''\<rparr>)) (doc p)\<rparr>"

text \<open>
  \<open>handleFormSubmission\<close>: reading \<open>dataset\<close> of a missing submit button throws;
  a missing or empty upload type is reported and nothing is sent.
\<close>

definition handleFormSubmission :: "page \<Rightarrow> nat \<Rightarrow> error + page" where
  "handleFormSubmission p form =
     (case query_in (doc p) form (\<lambda>e. has_class e ''submit-btn'') of
        None \<Rightarrow> Inl TypeError
      | Some submitButton \<Rightarrow>
          (case data_upload_type (doc p ! submitButton) of
             None \<Rightarrow>
               Inr (showToast ''Error: Upload type not specified'' ''error''
                      (emit (ConsoleError ''Upload type not found on submit button'') p))
           | Some uploadType \<Rightarrow>
               if uploadType = [] then
                 Inr (showToast ''Error: Upload type not specified'' ''error''
                        (emit (ConsoleError ''Upload type not found on submit button'') p))
               else
                 (let originalText = innerHTML (doc p ! submitButton);
                      p1 = updateUploadState p uploadType ''processing'';
                      p2 = setButtonLoadingState p1 submitButton originalText
                  in Inr (handleRealDjangoSubmission p2 form uploadType))))"




definition resetAllUploads :: "page \<Rightarrow> page" where
  "resetAllUploads p =
     showToast ''All upload statuses have been reset.'' ''info''
       (fold (\<lambda>uploadType q. updateUploadState q uploadType ''available'')
          (obj_keys (uploadStatus p)) p)"

text \<open>What the callbacks given to \<open>setTimeout\<close> do when their timer fires.\<close>

definition run_action :: "page \<Rightarrow> action \<Rightarrow> page" where
  "run_action p a =
     (case a of
        ToastFadeIn t \<Rightarrow> emit (ToastOpacity t ''1'') p
      | ToastFadeOut t \<Rightarrow> setTimeout (ToastRemove t) 300 (emit (ToastOpacity t ''0'') p)
      | ToastRemove t \<Rightarrow> emit (ToastRemoved t) p
      | SelectNextUpload \<Rightarrow> selectNextAvailableUpload p
      | AllUploadsCompleted \<Rightarrow>
          showCompletionModal
            (showToast (sym_party @ '' All uploads completed successfully!'') ''success'' p)
      | RestoreButton b originalText \<Rightarrow>
          p\<lparr>doc := modify b (\<lambda>e. e\<lparr>disabled := False, innerHTML := originalText\<rparr>) (doc p)\<rparr>)"

text \<open>
  The invariant of the upload status map: its keys are the four category names
  and every value is one of the four status labels.  \<open>form_upload_type\<close> is
  the upload type that \<open>handleFormSubmission\<close> reads from the submit button of a
  form, \<open>status_after\<close> the map after a call that may throw.
\<close>

definition status_inv :: "jsobj \<Rightarrow> bool" where
  "status_inv m = (obj_keys m = categories \<and> list_all (\<lambda>s. s \<in> set labels) (obj_values m))"

definition form_upload_type :: "page \<Rightarrow> nat \<Rightarrow> string option" where
  "form_upload_type p form =
     (case query_in (doc p) form (\<lambda>e. has_class e ''submit-btn'') of
        None \<Rightarrow> None
      | Some b \<Rightarrow> data_upload_type (doc p ! b))"

definition status_after :: "error + page \<Rightarrow> jsobj option" where
  "status_after r = (case r of Inl e \<Rightarrow> None | Inr q \<Rightarrow> Some (uploadStatus q))"

section \<open>The admin upload page: \<open>admin-upload-app.js\<close>\<close>

text \<open>
  The first click listener of a sidebar item.  It has no status test, and it
  dereferences the form section without a guard: when no element has the id,
  the listener throws after the item has been activated.
\<close>

definition admin_item_click :: "page \<Rightarrow> nat \<Rightarrow> page \<times> error option" where
  "admin_item_click p item =
     (let d1 = modify_all (query_all_class (doc p) ''upload-item'') (remove_classes [''active''])
                 (doc p);
          d2 = modify_all (query_all_class d1 ''upload-section'') (remove_classes [''active'']) d1;
          d3 = modify item (add_class ''active'') d2;
          upload = dataset_key (data_upload (d3 ! item))
      in case getElementById d3 (upload @ ''-form'') of
           None \<Rightarrow> (p\<lparr>doc := d3\<rparr>, Some TypeError)
         | Some section \<Rightarrow> (p\<lparr>doc := modify section (add_class ''active'') d3\<rparr>, None))"

text \<open>\<open>trackAdminAction\<close> calls \<open>gtag\<close> when the page defines it.\<close>

definition trackAdminAction :: "string \<Rightarrow> string \<Rightarrow> page \<Rightarrow> page" where
  "trackAdminAction act formType p = (if gtag_defined p then emit (Analytics act formType) p else p)"

text \<open>The second click listener of a sidebar item.\<close>

definition admin_item_click_tracking :: "page \<Rightarrow> nat \<Rightarrow> page" where
  "admin_item_click_tracking p item =
     trackAdminAction ''navigation_click'' (dataset_key (data_upload (doc p ! item))) p"


text \<open>
  The second submit listener: \<open>this.closest('.upload-section').id\<close>, which
  throws when the form is in no upload section.
\<close>

primrec closest_up :: "document \<Rightarrow> nat \<Rightarrow> nat \<Rightarrow> (element \<Rightarrow> bool) \<Rightarrow> nat option" where
  "closest_up d 0 n P = None"
| "closest_up d (Suc k) n P =
     (if n < length d
      then (if P (d ! n) then Some n
            else (case parent (d ! n) of None \<Rightarrow> None | Some q \<Rightarrow> closest_up d k q P))
      else None)"

definition closest :: "document \<Rightarrow> nat \<Rightarrow> (element \<Rightarrow> bool) \<Rightarrow> nat option" where
  "closest d n P = closest_up d (Suc (length d)) n P"

definition admin_form_submit_tracking :: "page \<Rightarrow> nat \<Rightarrow> page \<times> error option" where
  "admin_form_submit_tracking p form =
     (case closest (doc p) form (\<lambda>e. has_class e ''upload-section'') of
        None \<Rightarrow> (p, Some TypeError)
      | Some section \<Rightarrow> (trackAdminAction ''form_submit'' (el_id (doc p ! section)) p, None))"


text \<open>
  The document that both section switches have built when they look the form
  section up: \<open>active\<close> removed from every upload item and upload section,
  and added to the clicked item.
\<close>

definition switched :: "document \<Rightarrow> nat \<Rightarrow> document" where
  "switched d i =
     modify i (add_class ''active'')
       (modify_all (query_all_class d ''upload-section'') (remove_classes [''active''])
          (modify_all (query_all_class d ''upload-item'') (remove_classes [''active'']) d))"

section \<open>The geospatial dashboard: \<open>dashboard.js\<close>\<close>

text \<open>
  The dashboard script works on elements with fixed ids that its template
  provides; what it shows is kept as a trace: alerts (each removed by a timer
  after 5000 ms), the progress display (percentage, message and the process id
  shown with it), tab switches, panels, the requests with the fields of their
  form data, the status polls with the handle of the interval that issued them
  and the process id in the query, console errors and the statistics displays.
\<close>

datatype dash_event =
    DAlert string string
  | DProgress jsval jsval jsval
  | DSwitchTab string
  | DShowPanel string
  | DRequest string "(string \<times> jsval) list"
  | DStatusPoll nat jsval
  | DConsoleError string string
  | DStatistics
  | DCoordinates
  | DFinalStatistics

datatype dash_action = RemoveAlert nat

text \<open>
  The page-global variables (\<open>uploadedFiles\<close> as the names of the two files,
  \<open>currentProcessId\<close>, \<open>progressInterval\<close>, \<open>startTime\<close>), the browser's table of
  running interval timers (handle and period in milliseconds) with the next
  free handle, the trace and the pending timeouts.
\<close>

record dash =
  boundaries :: "string option"
  geotiff :: "string option"
  currentProcessId :: jsval
  progressInterval :: "nat option"
  startTime :: "nat option"
  intervals :: "(nat \<times> nat) list"
  next_handle :: nat
  d_trace :: "dash_event list"
  d_timers :: "(nat \<times> dash_action) list"

definition initial_dash :: dash where
  "initial_dash =
     \<lparr>boundaries = None, geotiff = None, currentProcessId = JNull, progressInterval = None,
      startTime = None, intervals = [], next_handle = 0, d_trace = [], d_timers = []\<rparr>"

text \<open>The JSON bodies the endpoints answer with.\<close>

record reply =
  success :: jsval
  message :: jsval
  process_id :: jsval

record status_reply =
  progress :: jsval
  st_message :: jsval
  completed :: jsval
  st_error :: jsval
  has_statistics :: bool
  has_coordinates :: bool

text \<open>
  How an awaited \<open>fetch\<close> followed by \<open>response.json()\<close> ends: \<open>Failed msg\<close> when the
  request is rejected, the body is not JSON or the body is \<open>null\<close>, so that
  reading a field of it throws (\<open>msg\<close> is the message of the error thrown),
  \<open>Body b\<close> with the parsed object otherwise.
\<close>

datatype 'a fetched = Failed string | Body 'a

definition d_emit :: "dash_event \<Rightarrow> dash \<Rightarrow> dash" where
  "d_emit ev d = d\<lparr>d_trace := d_trace d @ [ev]\<rparr>"

definition showAlert :: "string \<Rightarrow> string \<Rightarrow> dash \<Rightarrow> dash" where
  "showAlert msg kind d =
     d\<lparr>d_trace := d_trace d @ [DAlert msg kind],
       d_timers := d_timers d @ [(5000, RemoveAlert (length (d_trace d)))]\<rparr>"

definition updateProgress :: "jsval \<Rightarrow> jsval \<Rightarrow> dash \<Rightarrow> dash" where
  "updateProgress percentage msg d =
     d_emit (DProgress percentage msg (js_or (currentProcessId d) (JStr ''Not assigned''))) d"

text \<open>
  \<open>switchTab\<close> activates the tab content and then marks \<open>event.target\<close>; outside
  an event listener \<open>event\<close> is undefined and that last statement throws.
\<close>

definition switchTab :: "string \<Rightarrow> bool \<Rightarrow> dash \<Rightarrow> dash \<times> error option" where
  "switchTab tabName in_listener d =
     (d_emit (DSwitchTab tabName) d, if in_listener then None else Some TypeError)"

definition startProgressMonitoring :: "dash \<Rightarrow> dash" where
  "startProgressMonitoring d =
     d\<lparr>intervals := intervals d @ [(next_handle d, 2000)],
       progressInterval := Some (next_handle d),
       next_handle := Suc (next_handle d)\<rparr>"

text \<open>\<open>clearInterval\<close> of a handle (\<open>None\<close> for \<open>null\<close>) that may or may not be running.\<close>

definition clearInterval :: "nat option \<Rightarrow> dash \<Rightarrow> dash" where
  "clearInterval h d = d\<lparr>intervals := filter (\<lambda>t. Some (fst t) \<noteq> h) (intervals d)\<rparr>"

definition startProcessing :: "dash \<Rightarrow> reply fetched \<Rightarrow> dash" where
  "startProcessing d r =
     (let d1 = d_emit (DRequest ''/geospatial/api/start_merge/''
                         [(''process_id'', currentProcessId d)]) d;
          failed = (\<lambda>msg. showAlert (''Processing failed: '' @ msg) ''error''
                             (d_emit (DConsoleError ''Processing error:'' msg) d1))
      in case r of
           Failed msg \<Rightarrow> failed msg
         | Body result \<Rightarrow>
             if truthy (success result)
             then startProgressMonitoring
                    (updateProgress (JNum 75) (JStr ''Processing started...'') d1)
             else failed (to_string (js_or (message result) (JStr ''Processing failed to start''))))"

text \<open>
  \<open>handleFormSubmit\<close>, with the time \<open>Date.now()\<close> returns and the ends of its two
  awaited requests (the second is consulted only if \<open>startProcessing\<close> is
  reached).
\<close>

definition handleFormSubmit :: "dash \<Rightarrow> nat \<Rightarrow> reply fetched \<Rightarrow> reply fetched \<Rightarrow> dash" where
  "handleFormSubmit d now r1 r2 =
     (case (boundaries d, geotiff d) of
        (Some shp, Some tif) \<Rightarrow>
          (let d1 = fst (switchTab ''process'' True d);
               d2 = d1\<lparr>startTime := Some now\<rparr>;
               d3 = d_emit (DShowPanel ''coordinateInfo'') (d_emit (DShowPanel ''progressPanel'') d2);
               d4 = updateProgress (JNum 0) (JStr ''Starting upload...'') d3;
               d5 = updateProgress (JNum 25) (JStr ''Uploading files...'') d4;
               d6 = d_emit (DRequest ''/geospatial/upload_files/''
                              [(''geojson'', JStr shp), (''geotiff'', JStr tif)]) d5;
               failed = (\<lambda>msg. updateProgress (JNum 0) (JStr ''Upload failed'')
                                  (showAlert (''Upload failed: '' @ msg) ''error''
                                     (d_emit (DConsoleError ''Upload error:'' msg) d6)))
           in case r1 of
                Failed msg \<Rightarrow> failed msg
              | Body result \<Rightarrow>
                  if truthy (success result)
                  then startProcessing
                         (updateProgress (JNum 50) (JStr ''Files uploaded successfully'')
                            (d6\<lparr>currentProcessId := process_id result\<rparr>)) r2
                  else failed (to_string (js_or (message result) (JStr ''Upload failed''))))
      | _ \<Rightarrow> showAlert ''Please upload both files'' ''error'' d)"

text \<open>
  The callback of the progress interval in two parts: \<open>interval_tick\<close> is the
  firing of the interval with handle \<open>h\<close> (a cleared interval does not fire),
  which issues the status request; \<open>poll_settled\<close> is the rest of the callback,
  run when an awaited status request has ended.
\<close>

definition interval_tick :: "dash \<Rightarrow> nat \<Rightarrow> dash" where
  "interval_tick d h =
     (if h \<in> fst ` set (intervals d) then d_emit (DStatusPoll h (currentProcessId d)) d else d)"

definition poll_settled :: "dash \<Rightarrow> status_reply fetched \<Rightarrow> dash" where
  "poll_settled d r =
     (case r of
        Failed msg \<Rightarrow> d_emit (DConsoleError ''Progress check error:'' msg) d
      | Body status \<Rightarrow>
          (let d1 = updateProgress (js_or (progress status) (JNum 0))
                      (js_or (st_message status) (JStr ''Processing...'')) d;
               d2 = (if has_statistics status then d_emit DStatistics d1 else d1);
               d3 = (if has_coordinates status then d_emit DCoordinates d2 else d2)
           in if truthy (completed status) then
                (let d4 = clearInterval (progressInterval d3) d3
                 in if truthy (st_error status)
                    then showAlert (''Processing failed: '' @ to_string (st_error status)) ''error'' d4
                    else
                      (let d5 = updateProgress (JNum 100)
                                  (JStr ''Processing completed successfully!'') d4;
                           d6 = showAlert ''Processing completed successfully!'' ''success'' d5;
                           d7 = d_emit DFinalStatistics d6
                       in case switchTab ''statistics'' False d7 of
                            (d8, None) \<Rightarrow> d8
                          | (d8, Some e) \<Rightarrow>
                              d_emit (DConsoleError ''Progress check error:''
                                        ''Cannot read properties of undefined'') d8))
              else d3))"

text \<open>
  What can happen to the dashboard after a monitor has been started: an
  interval fires, a status request ends, or another successful submission calls
  \<open>startProgressMonitoring\<close> again.
\<close>

datatype dash_input = Tick nat | Settled "status_reply fetched" | Restart

fun dash_step :: "dash \<Rightarrow> dash_input \<Rightarrow> dash" where
  "dash_step d (Tick h) = interval_tick d h"
| "dash_step d (Settled r) = poll_settled d r"
| "dash_step d Restart = startProgressMonitoring d"

definition dash_run :: "dash \<Rightarrow> dash_input list \<Rightarrow> dash" where
  "dash_run d evs = foldl dash_step d evs"

text \<open>The status polls in a trace that the interval with handle \<open>h\<close> has issued.\<close>

definition polls_of :: "nat \<Rightarrow> dash_event list \<Rightarrow> dash_event list" where
  "polls_of h tr = filter (\<lambda>ev. case ev of DStatusPoll i pid \<Rightarrow> i = h | _ \<Rightarrow> False) tr"

definition requests_of :: "dash_event list \<Rightarrow> dash_event list" where
  "requests_of tr =
     filter (\<lambda>ev. case ev of DRequest u b \<Rightarrow> True | DStatusPoll i pid \<Rightarrow> True | _ \<Rightarrow> False) tr"

definition alerts_of :: "dash_event list \<Rightarrow> dash_event list" where
  "alerts_of tr = filter (\<lambda>ev. case ev of DAlert m k \<Rightarrow> True | _ \<Rightarrow> False) tr"

text \<open>
  The timer table is well formed when every handle in use, and the handle in
  \<open>progressInterval\<close>, is below the next free one.
\<close>

definition handles_ok :: "dash \<Rightarrow> bool" where
  "handles_ok d =
     (list_all (\<lambda>t. fst t < next_handle d) (intervals d)
      \<and> (case progressInterval d of None \<Rightarrow> True | Some h \<Rightarrow> h < next_handle d))"

section \<open>The two \<open>formatFileSize\<close> functions\<close>

text \<open>
  Both scripts define \<open>formatFileSize\<close> on JavaScript numbers.  The number
  operations they use are taken as parameters: the value of a numeral, \<open>===\<close>,
  \<open>Math.log\<close>, \<open>/\<close>, \<open>Math.floor\<close>, \<open>Math.pow\<close>, \<open>toFixed\<close>, \<open>parseFloat\<close>, the text of a
  number in a string concatenation, and the array index that a number used
  as a subscript denotes (\<open>None\<close> for a number that is no index).
\<close>

record 'n jsmath =
  lit :: "nat \<Rightarrow> 'n"
  strict_eq :: "'n \<Rightarrow> 'n \<Rightarrow> bool"
  math_log :: "'n \<Rightarrow> 'n"
  quotient :: "'n \<Rightarrow> 'n \<Rightarrow> 'n"
  math_floor :: "'n \<Rightarrow> 'n"
  math_pow :: "'n \<Rightarrow> 'n \<Rightarrow> 'n"
  toFixed :: "'n \<Rightarrow> nat \<Rightarrow> string"
  parseFloat :: "string \<Rightarrow> 'n"
  num_text :: "'n \<Rightarrow> string"
  array_index :: "'n \<Rightarrow> nat option"

text \<open>\<open>sizes[i]\<close> in a concatenation: the element, or the text \<open>undefined\<close>.\<close>

definition subscript_text :: "string list \<Rightarrow> nat option \<Rightarrow> string" where
  "subscript_text xs i =
     (case i of
        None \<Rightarrow> ''undefined''
      | Some j \<Rightarrow> if j < length xs then xs ! j else ''undefined'')"

text \<open>\<open>formatFileSize\<close> of \<open>dashboard.js\<close>.\<close>

definition formatFileSize_dashboard :: "'n jsmath \<Rightarrow> 'n \<Rightarrow> string" where
  "formatFileSize_dashboard M bytes =
     (if strict_eq M bytes (lit M 0) then ''0 Bytes''
      else
        (let k = lit M 1024;
             sizes = [''Bytes'', ''KB'', ''MB'', ''GB''];
             i = math_floor M (quotient M (math_log M bytes) (math_log M k))
         in num_text M (parseFloat M (toFixed M (quotient M bytes (math_pow M k i)) 2))
              @ '' '' @ subscript_text sizes (array_index M i)))"

text \<open>\<open>formatFileSize\<close> of \<open>user-upload_app.js\<close>.\<close>

definition formatFileSize_upload :: "'n jsmath \<Rightarrow> 'n \<Rightarrow> string" where
  "formatFileSize_upload M bytes =
     (if strict_eq M bytes (lit M 0) then ''0 Bytes''
      else
        (let k = lit M 1024;
             sizes = [''Bytes'', ''KB'', ''MB'', ''GB''];
             i = math_floor M (quotient M (math_log M bytes) (math_log M k))
         in num_text M (parseFloat M (toFixed M (quotient M bytes (math_pow M k i)) 2))
              @ '' '' @ subscript_text sizes (array_index M i)))"

section \<open>A concrete page\<close>

text \<open>
  A small user upload page on which the theorems below are instantiated: the
  sidebar items and form sections of \<open>temperature\<close> and \<open>hmis-api\<close>, the
  temperature form with one input and its submit button.  The two other
  categories have no elements on it.
\<close>

definition blank_element :: element where
  "blank_element =
     \<lparr>tag = ''div'', el_id = [], classes = [], data_upload = None, data_upload_type = None,
      parent = None, disabled = False, innerHTML = [], display = [], background = [],
      bar_width = None, required = False, el_value = [], input_type = [], files = 0,
      action_url = []\<rparr>"

definition sample_doc :: document where
  "sample_doc =
     [blank_element\<lparr>tag := ''li'', classes := [''upload-item'', ''active''],
                    data_upload := Some ''temperature''\<rparr>,
      blank_element\<lparr>el_id := ''temperature-form'', classes := [''upload-section'', ''active'']\<rparr>,
      blank_element\<lparr>tag := ''form'', classes := [''upload-form''], parent := Some 1,
                    action_url := ''/upload/temperature/''\<rparr>,
      blank_element\<lparr>tag := ''input'', parent := Some 2, required := True,
                    el_value := ''t.csv'', input_type := ''file'', files := 1\<rparr>,
      blank_element\<lparr>tag := ''button'', classes := [''submit-btn''], parent := Some 2,
                    data_upload_type := Some ''temperature'', innerHTML := ''Upload''\<rparr>,
      blank_element\<lparr>tag := ''li'', classes := [''upload-item''],
                    data_upload := Some ''hmis-api''\<rparr>,
      blank_element\<lparr>el_id := ''hmis-api-form'', classes := [''upload-section'']\<rparr>]"

definition sample_page :: page where
  "sample_page =
     \<lparr>uploadStatus = initial_status, sessionStorage = Map.empty, doc = sample_doc,
      trace = [], timers = [], locale_time = ''10:00:00'', gtag_defined = False\<rparr>"

definition done_page :: page where
  "done_page = sample_page\<lparr>uploadStatus := [(''temperature'', ''completed''), (''hmis-api'', ''disabled'')]\<rparr>"

text \<open>
  A page whose template offers a fifth upload category, \<open>slope\<close>, with its
  sidebar item, form section, form and submit button.
\<close>

definition slope_doc :: document where
  "slope_doc =
     [blank_element\<lparr>tag := ''li'', classes := [''upload-item''], data_upload := Some ''slope''\<rparr>,
      blank_element\<lparr>el_id := ''slope-form'', classes := [''upload-section'']\<rparr>,
      blank_element\<lparr>tag := ''form'', classes := [''upload-form''], parent := Some 1,
                    action_url := ''/upload/slope/''\<rparr>,
      blank_element\<lparr>tag := ''button'', classes := [''submit-btn''], parent := Some 2,
                    data_upload_type := Some ''slope'', innerHTML := ''Upload''\<rparr>]"

definition slope_page :: page where
  "slope_page = sample_page\<lparr>doc := slope_doc\<rparr>"


section \<open>A concrete dashboard session\<close>

text \<open>
  The dashboard with both files chosen, a reply that reports success with a
  process id, one that reports failure with a message, and a status reply
  that reports completion.
\<close>

definition ready_dash :: dash where
  "ready_dash = initial_dash\<lparr>boundaries := Some ''rwanda.zip'', geotiff := Some ''slope.tif''\<rparr>"

definition ok_reply :: reply where
  "ok_reply = \<lparr>success = JBool True, message = JUndefined, process_id = JStr ''p1''\<rparr>"

definition failed_reply :: reply where
  "failed_reply = \<lparr>success = JBool False, message = JStr ''bad archive'', process_id = JUndefined\<rparr>"

definition finished_reply :: status_reply where
  "finished_reply =
     \<lparr>progress = JNum 100, st_message = JStr ''done'', completed = JBool True,
      st_error = JUndefined, has_statistics = True, has_coordinates = False\<rparr>"

text \<open>The form submitted once, and submitted a second time while the first monitor runs.\<close>

definition submitted_once :: dash where
  "submitted_once = handleFormSubmit ready_dash 1000 (Body ok_reply) (Body ok_reply)"

definition submitted_twice :: dash where
  "submitted_twice = handleFormSubmit submitted_once 5000 (Body ok_reply) (Body ok_reply)"

section \<open>Auxiliary facts\<close>

subsection \<open>The JSON text of an object parses back to the object\<close>

lemma hex_value_digit: "d < 16 \<Longrightarrow> hex_value (hex_digit d) = Some d"
  by (simp add: hex_value_def hex_digit_def Let_def)

lemma lex_escape:
  "lex_run (toks, InStr acc) (json_escape c @ rest) = lex_run (toks, InStr (acc @ [c])) rest"
proof -
  consider (q) "c = CHR 0x22" | (b) "c = CHR 0x5C" | (c8) "c = CHR 0x08" | (cc) "c = CHR 0x0C"
    | (ca) "c = CHR 0x0A" | (cd) "c = CHR 0x0D" | (c9) "c = CHR 0x09"
    | (ctl) "c \<notin> {CHR 0x22, CHR 0x5C, CHR 0x08, CHR 0x0C, CHR 0x0A, CHR 0x0D, CHR 0x09}"
            "(of_char c :: nat) < 32"
    | (pl) "c \<notin> {CHR 0x22, CHR 0x5C, CHR 0x08, CHR 0x0C, CHR 0x0A, CHR 0x0D, CHR 0x09}"
           "\<not> (of_char c :: nat) < 32"
    by auto
  then show ?thesis
  proof cases
    case ctl
    let ?n = "of_char c :: nat"
    have h1: "hex_value (hex_digit (?n div 16)) = Some (?n div 16)"
      using ctl by (intro hex_value_digit) simp
    have h2: "hex_value (hex_digit (?n mod 16)) = Some (?n mod 16)"
      by (intro hex_value_digit) simp
    have h0: "hex_value CHR ''0'' = Some 0" by (simp add: hex_value_def)
    have v: "?n div 16 * 16 + ?n mod 16 = ?n" by simp
    have "char_of ?n = c" by simp
    with ctl h1 h2 h0 v show ?thesis
      by (simp add: json_escape_def simple_escape_def)
  qed (simp_all add: json_escape_def simple_escape_def)
qed

lemma lex_escaped:
  "lex_run (toks, InStr acc) (concat (map json_escape s) @ rest)
     = lex_run (toks, InStr (acc @ s)) rest"
  by (induction s arbitrary: acc) (simp_all add: lex_escape)

lemma lex_quote:
  "lex_run (toks, Outside) (json_quote s @ rest) = lex_run (toks @ [TStr s], Outside) rest"
  using lex_escaped [of toks "[]" s "CHR 0x22 # rest"]
  by (simp add: json_quote_def is_json_ws_def)

lemma lex_member:
  "lex_run (toks, Outside) (json_member kv @ rest)
     = lex_run (toks @ [TStr (fst kv), TColon, TStr (snd kv)], Outside) rest"
  using lex_quote [of toks "fst kv" "CHR '':'' # json_quote (snd kv) @ rest"]
        lex_quote [of "toks @ [TStr (fst kv), TColon]" "snd kv" rest]
  by (simp add: json_member_def is_json_ws_def)

lemma lex_members:
  "lex_run (toks, Outside) (json_members m @ rest)
     = lex_run (toks @ member_tokens m, Outside) rest"
proof (induction m arbitrary: toks rule: json_members.induct)
  case 1
  show ?case by simp
next
  case (2 kv)
  show ?case by (simp add: lex_member)
next
  case (3 kv x rest')
  show ?case
    using lex_member [of toks kv "CHR '','' # json_members (x # rest') @ rest"]
          "3.IH" [of "toks @ [TStr (fst kv), TColon, TStr (snd kv), TComma]"]
    by (simp add: is_json_ws_def)
qed

lemma json_lex_stringify:
  "json_lex (JSON_stringify m) = Some (TLBrace # member_tokens m @ [TRBrace])"
  using lex_members [of "[TLBrace]" m "''}''"]
  by (simp add: json_lex_def JSON_stringify_def is_json_ws_def)

lemma obj_set_fresh: "k \<notin> fst ` set m \<Longrightarrow> obj_set m k v = m @ [(k, v)]"
  by (induction m) auto

lemma parse_member_tokens:
  "m \<noteq> [] \<Longrightarrow> distinct (map fst (acc @ m)) \<Longrightarrow>
     parse_members acc (member_tokens m @ [TRBrace]) = Some (acc @ m)"
proof (induction m arbitrary: acc rule: member_tokens.induct)
  case 1
  then show ?case by simp
next
  case (2 kv)
  then show ?case by (cases kv) (simp add: obj_set_fresh)
next
  case (3 kv x rest)
  obtain k v where kv: "kv = (k, v)" by (cases kv)
  have fresh: "obj_set acc k v = acc @ [(k, v)]"
    using "3.prems"(2) kv by (intro obj_set_fresh) auto
  have "parse_members (acc @ [(k, v)]) (member_tokens (x # rest) @ [TRBrace])
          = Some ((acc @ [(k, v)]) @ x # rest)"
    using "3.prems"(2) kv by (intro "3.IH") auto
  then show ?case using kv fresh by simp
qed

lemma JSON_roundtrip:
  "distinct (map fst m) \<Longrightarrow> JSON_parse (JSON_stringify m) = Some m"
proof (cases m)
  case Nil
  then show ?thesis by (simp add: JSON_parse_def json_lex_stringify)
next
  case (Cons kv rest)
  assume d: "distinct (map fst m)"
  have "parse_members [] (member_tokens m @ [TRBrace]) = Some m"
    using parse_member_tokens [of m "[]"] d Cons by simp
  then show ?thesis
    using Cons by (cases rest) (auto simp add: JSON_parse_def json_lex_stringify)
qed

lemma JSON_stringify_nonempty: "JSON_stringify m \<noteq> []"
  by (simp add: JSON_stringify_def)

subsection \<open>The completion test\<close>

lemma all_done_iff:
  "all_done m = (\<forall>s \<in> set (obj_values m). s = ''completed'' \<or> s = ''disabled'')"
  by (simp add: all_done_def list_all_iff)

lemma add_timer_neq: "p\<lparr>timers := timers p @ [x]\<rparr> \<noteq> p"
proof
  assume "p\<lparr>timers := timers p @ [x]\<rparr> = p"
  then have "timers (p\<lparr>timers := timers p @ [x]\<rparr>) = timers p"
    by (rule arg_cong)
  then show False by simp
qed

lemma not_all_done:
  assumes "\<exists>s \<in> set (obj_values m). s = ''available'' \<or> s = ''processing''"
  shows "\<not> all_done m"
proof
  from assms obtain s where s: "s \<in> set (obj_values m)"
    and v: "s = ''available'' \<or> s = ''processing''" by blast
  assume "all_done m"
  with s have "s = ''completed'' \<or> s = ''disabled''" unfolding all_done_iff by blast
  with v show False by auto
qed

subsection \<open>What the functions of the user page leave untouched\<close>

lemma emit_fields [simp]:
  "uploadStatus (emit ev p) = uploadStatus p" "sessionStorage (emit ev p) = sessionStorage p"
  "doc (emit ev p) = doc p" "timers (emit ev p) = timers p" "trace (emit ev p) = trace p @ [ev]"
  by (simp_all add: emit_def)

lemma setTimeout_fields [simp]:
  "uploadStatus (setTimeout a ms p) = uploadStatus p"
  "sessionStorage (setTimeout a ms p) = sessionStorage p"
  "doc (setTimeout a ms p) = doc p" "trace (setTimeout a ms p) = trace p"
  "timers (setTimeout a ms p) = timers p @ [(ms, a)]"
  by (simp_all add: setTimeout_def)

lemma showToast_fields [simp]:
  "uploadStatus (showToast msg kind p) = uploadStatus p"
  "sessionStorage (showToast msg kind p) = sessionStorage p"
  "doc (showToast msg kind p) = doc p"
  "trace (showToast msg kind p) = trace p @ [ToastShown msg kind]"
  "timers (showToast msg kind p)
     = timers p @ [(100, ToastFadeIn (length (trace p))), (4000, ToastFadeOut (length (trace p)))]"
  by (simp_all add: showToast_def Let_def)

lemma saveUploadStatus_fields [simp]:
  "uploadStatus (saveUploadStatus p) = uploadStatus p"
  "doc (saveUploadStatus p) = doc p" "trace (saveUploadStatus p) = trace p"
  "timers (saveUploadStatus p) = timers p"
  "sessionStorage (saveUploadStatus p)
     = (sessionStorage p)(''uploadStatus'' \<mapsto> JSON_stringify (uploadStatus p))"
  by (simp_all add: saveUploadStatus_def)

lemma updateProgressBar_fields [simp]:
  "uploadStatus (updateProgressBar p) = uploadStatus p"
  "sessionStorage (updateProgressBar p) = sessionStorage p"
  "trace (updateProgressBar p) = trace p" "timers (updateProgressBar p) = timers p"
  by (simp_all add: updateProgressBar_def Let_def split: option.splits)

lemma updateSessionStatus_fields [simp]:
  "uploadStatus (updateSessionStatus p) = uploadStatus p"
  "sessionStorage (updateSessionStatus p) = sessionStorage p"
  "trace (updateSessionStatus p) = trace p" "timers (updateSessionStatus p) = timers p"
  by (simp_all add: updateSessionStatus_def split: option.splits)

lemma updateUploadState_status:
  "uploadStatus (updateUploadState p t s)
     = (if has_elements p t then obj_set (uploadStatus p) t s else uploadStatus p)"
  by (auto simp add: updateUploadState_def has_elements_def Let_def split: option.splits)

lemma updateUploadState_storage:
  "sessionStorage (updateUploadState p t s)
     = (if has_elements p t
        then (sessionStorage p)(''uploadStatus'' \<mapsto> JSON_stringify (obj_set (uploadStatus p) t s))
        else sessionStorage p)"
  by (auto simp add: updateUploadState_def has_elements_def Let_def split: option.splits)

lemma updateUploadState_timers [simp]: "timers (updateUploadState p t s) = timers p"
  by (auto simp add: updateUploadState_def Let_def split: option.splits)

lemma updateUploadState_trace:
  "trace (updateUploadState p t s)
     = (if has_elements p t then trace p
        else trace p @ [ConsoleWarn (''Could not find elements for upload type: '' @ t)])"
  by (auto simp add: updateUploadState_def has_elements_def Let_def split: option.splits)

lemma obj_set_same: "obj_get m k = Some v \<Longrightarrow> obj_set m k v = m"
  by (induction m) (auto simp add: obj_get_def split: if_splits)

lemma obj_keys_set: "k \<in> set (obj_keys m) \<Longrightarrow> obj_keys (obj_set m k v) = obj_keys m"
proof (induction m)
  case Nil
  then show ?case by (simp add: obj_keys_def)
next
  case (Cons kv m)
  obtain k' v' where kv: "kv = (k', v')" by (cases kv)
  show ?case
  proof (cases "k' = k")
    case True
    then show ?thesis using kv by (simp add: obj_keys_def)
  next
    case False
    then have "k \<in> set (obj_keys m)" using Cons.prems kv by (auto simp add: obj_keys_def)
    then have "obj_keys (obj_set m k v) = obj_keys m" by (rule Cons.IH)
    then show ?thesis using kv False by (simp add: obj_keys_def)
  qed
qed

lemma obj_values_set:
  "list_all P (obj_values m) \<Longrightarrow> P v \<Longrightarrow> list_all P (obj_values (obj_set m k v))"
  by (induction m) (auto simp add: obj_values_def)

lemma update_each_status: "uploadStatus (update_each p ks) = uploadStatus p"
proof (induction ks arbitrary: p)
  case Nil
  show ?case by simp
next
  case (Cons k ks)
  show ?case
  proof (cases "obj_get (uploadStatus p) k")
    case None
    then show ?thesis using Cons.IH [of p] by simp
  next
    case (Some v)
    have "uploadStatus (updateUploadState p k v) = uploadStatus p"
      using Some by (simp add: updateUploadState_status obj_set_same)
    then show ?thesis using Some Cons.IH [of "updateUploadState p k v"] by simp
  qed
qed

lemma handleSectionSwitch_fields [simp]:
  "uploadStatus (handleSectionSwitch p i) = uploadStatus p"
  "sessionStorage (handleSectionSwitch p i) = sessionStorage p"
  "trace (handleSectionSwitch p i) = trace p" "timers (handleSectionSwitch p i) = timers p"
  by (simp_all add: handleSectionSwitch_def Let_def split: option.splits)

lemma selectNextAvailableUpload_fields [simp]:
  "uploadStatus (selectNextAvailableUpload p) = uploadStatus p"
  "sessionStorage (selectNextAvailableUpload p) = sessionStorage p"
  "trace (selectNextAvailableUpload p) = trace p" "timers (selectNextAvailableUpload p) = timers p"
  by (simp_all add: selectNextAvailableUpload_def Let_def split: list.splits)

lemma updateAllUploadStates_status: "uploadStatus (updateAllUploadStates p) = uploadStatus p"
  by (simp add: updateAllUploadStates_def Let_def update_each_status split: option.splits)

lemma setButtonLoadingState_fields [simp]:
  "uploadStatus (setButtonLoadingState p b t) = uploadStatus p"
  "sessionStorage (setButtonLoadingState p b t) = sessionStorage p"
  "trace (setButtonLoadingState p b t) = trace p" "timers (setButtonLoadingState p b t) = timers p"
  by (simp_all add: setButtonLoadingState_def)

lemma handleRealDjangoSubmission_fields [simp]:
  "uploadStatus (handleRealDjangoSubmission p f t) = uploadStatus p"
  "sessionStorage (handleRealDjangoSubmission p f t) = sessionStorage p"
  "doc (handleRealDjangoSubmission p f t) = doc p"
  "timers (handleRealDjangoSubmission p f t) = timers p"
  "trace (handleRealDjangoSubmission p f t) = trace p @ [FetchPost (action_url (doc p ! f))]"
  by (simp_all add: handleRealDjangoSubmission_def)

lemma checkAllUploadsCompleted_fields [simp]:
  "uploadStatus (checkAllUploadsCompleted p) = uploadStatus p"
  "sessionStorage (checkAllUploadsCompleted p) = sessionStorage p"
  "doc (checkAllUploadsCompleted p) = doc p" "trace (checkAllUploadsCompleted p) = trace p"
  by (simp_all add: checkAllUploadsCompleted_def)

lemma status_inv_update:
  assumes "status_inv (uploadStatus p)" "t \<in> set categories" "s \<in> set labels"
  shows "status_inv (uploadStatus (updateUploadState p t s))"
proof (cases "has_elements p t")
  case False
  then show ?thesis using assms(1) by (simp add: updateUploadState_status)
next
  case True
  have k: "t \<in> set (obj_keys (uploadStatus p))" using assms(1,2) by (simp add: status_inv_def)
  have "obj_keys (obj_set (uploadStatus p) t s) = categories"
    using obj_keys_set [OF k] assms(1) by (simp add: status_inv_def)
  moreover have "list_all (\<lambda>s. s \<in> set labels) (obj_values (obj_set (uploadStatus p) t s))"
    using assms(1,3) by (intro obj_values_set) (simp_all add: status_inv_def)
  ultimately show ?thesis using True by (simp add: updateUploadState_status status_inv_def)
qed

lemma status_inv_fold:
  assumes "set ks \<subseteq> set categories" "s \<in> set labels" "status_inv (uploadStatus p)"
  shows "status_inv (uploadStatus (fold (\<lambda>uploadType q. updateUploadState q uploadType s) ks p))"
  using assms
proof (induction ks arbitrary: p)
  case Nil
  then show ?case by simp
next
  case (Cons k ks)
  have "status_inv (uploadStatus (updateUploadState p k s))"
    using Cons.prems by (intro status_inv_update) simp_all
  then show ?case using Cons.prems Cons.IH [of "updateUploadState p k s"] by simp
qed

lemma label_available: "''available'' \<in> set labels" by (simp add: labels_def)
lemma label_processing: "''processing'' \<in> set labels" by (simp add: labels_def)
lemma label_completed: "''completed'' \<in> set labels" by (simp add: labels_def)
lemma category_nonempty: "t \<in> set categories \<Longrightarrow> t \<noteq> []" by (auto simp add: categories_def)

subsection \<open>Documents, queries and the section switch\<close>

lemma length_modify [simp]: "length (modify i f d) = length d"
  by (simp add: modify_def)

lemma length_modify_all [simp]: "length (modify_all ns f d) = length d"
  by (simp add: modify_all_def)

lemma nth_modify: "j < length d \<Longrightarrow> modify i f d ! j = (if j = i then f (d ! j) else d ! j)"
  by (simp add: modify_def nth_list_update)

lemma nth_modify_all:
  "j < length d \<Longrightarrow> modify_all ns f d ! j = (if j \<in> set ns then f (d ! j) else d ! j)"
  by (simp add: modify_all_def)

lemma set_nodes_where: "set (nodes_where d P) = {i. i < length d \<and> P i}"
  by (auto simp add: nodes_where_def)

lemma first_where_Some: "first_where d P = Some i \<Longrightarrow> i < length d \<and> P i"
proof -
  assume "first_where d P = Some i"
  then have "i \<in> set (nodes_where d P)"
    by (auto simp add: first_where_def split: list.splits)
  then show ?thesis by (simp add: set_nodes_where)
qed

lemma nodes_where_cong:
  "length d' = length d \<Longrightarrow> (\<And>i. i < length d \<Longrightarrow> P' i = P i) \<Longrightarrow>
     nodes_where d' P' = nodes_where d P"
  by (auto simp add: nodes_where_def intro: filter_cong)

lemma first_where_cong:
  "length d' = length d \<Longrightarrow> (\<And>i. i < length d \<Longrightarrow> P' i = P i) \<Longrightarrow>
     first_where d' P' = first_where d P"
  using nodes_where_cong [of d' d P' P] by (simp add: first_where_def)

lemma has_class_add [simp]: "has_class (add_class c e) c' = (c' = c \<or> has_class e c')"
  by (auto simp add: has_class_def add_class_def)

lemma has_class_remove [simp]:
  "has_class (remove_classes cs e) c' = (c' \<notin> set cs \<and> has_class e c')"
  by (auto simp add: has_class_def remove_classes_def)

lemma el_id_class_ops [simp]:
  "el_id (add_class c e) = el_id e" "el_id (remove_classes cs e) = el_id e"
  "data_upload (add_class c e) = data_upload e" "data_upload (remove_classes cs e) = data_upload e"
  by (simp_all add: add_class_def remove_classes_def)



lemma switched_ids:
  assumes "j < length d"
  shows "el_id (switched d i ! j) = el_id (d ! j)"
    and "data_upload (switched d i ! j) = data_upload (d ! j)"
  using assms
  by (simp_all add: switched_def nth_modify nth_modify_all)

lemma length_switched [simp]: "length (switched d i) = length d"
  by (simp add: switched_def)


lemma getElementById_switched: "getElementById (switched d i) s = getElementById d s"
  unfolding getElementById_def
  by (rule first_where_cong) (simp_all add: switched_ids)




lemma admin_item_click_error:
  assumes "i < length (doc p)"
  shows "snd (admin_item_click p i)
           = (if getElementById (doc p) (dataset_key (data_upload (doc p ! i)) @ ''-form'') = None
              then Some TypeError else None)"
proof -
  have q: "query_all_class
             (modify_all (query_all_class (doc p) ''upload-item'') (remove_classes [''active''])
                (doc p)) ''upload-section''
           = query_all_class (doc p) ''upload-section''"
    unfolding query_all_class_def
    by (rule nodes_where_cong) (simp_all add: nth_modify_all)
  show ?thesis
    using assms
    by (simp add: admin_item_click_def Let_def q switched_def [symmetric]
          getElementById_switched switched_ids split: option.splits)
qed

subsection \<open>Submitting an upload form\<close>

lemma updateStatusBadge_length [simp]: "length (updateStatusBadge d i s) = length d"
  by (simp add: updateStatusBadge_def split: option.splits)

lemma updateStatusIcon_length [simp]: "length (updateStatusIcon d i s) = length d"
  by (simp add: updateStatusIcon_def Let_def split: option.splits)

lemma updateFormState_length [simp]: "length (updateFormState d i s) = length d"
  by (simp add: updateFormState_def Let_def split: option.splits)

lemma updateProgressBar_length [simp]: "length (doc (updateProgressBar p)) = length (doc p)"
  by (simp add: updateProgressBar_def Let_def split: option.splits)

lemma updateSessionStatus_length [simp]: "length (doc (updateSessionStatus p)) = length (doc p)"
  by (simp add: updateSessionStatus_def split: option.splits)

lemma updateUploadState_length [simp]: "length (doc (updateUploadState p t s)) = length (doc p)"
  by (simp add: updateUploadState_def Let_def split: option.splits)

lemma query_in_Some: "query_in d r P = Some b \<Longrightarrow> b < length d \<and> P (d ! b)"
  unfolding query_in_def by (drule first_where_Some) simp



lemma handleFormSubmission_silent:
  assumes "form_upload_type p form = None \<or> form_upload_type p form = Some []"
  shows "handleFormSubmission p form = Inl TypeError
         \<or> handleFormSubmission p form
             = Inr (showToast ''Error: Upload type not specified'' ''error''
                      (emit (ConsoleError ''Upload type not found on submit button'') p))"
  using assms
  by (auto simp add: handleFormSubmission_def form_upload_type_def split: option.splits)


lemma trackAdminAction_fields [simp]:
  "doc (trackAdminAction a f p) = doc p" "timers (trackAdminAction a f p) = timers p"
  "uploadStatus (trackAdminAction a f p) = uploadStatus p"
  by (simp_all add: trackAdminAction_def)


lemma admin_form_submit_tracking_fields [simp]:
  "doc (fst (admin_form_submit_tracking p form)) = doc p"
  "timers (fst (admin_form_submit_tracking p form)) = timers p"
  by (simp_all add: admin_form_submit_tracking_def split: option.splits)






subsection \<open>The dashboard\<close>

lemma d_emit_fields [simp]:
  "intervals (d_emit ev d) = intervals d" "next_handle (d_emit ev d) = next_handle d"
  "progressInterval (d_emit ev d) = progressInterval d"
  "currentProcessId (d_emit ev d) = currentProcessId d"
  "d_trace (d_emit ev d) = d_trace d @ [ev]" "d_timers (d_emit ev d) = d_timers d"
  "boundaries (d_emit ev d) = boundaries d" "geotiff (d_emit ev d) = geotiff d"
  by (simp_all add: d_emit_def)

lemma showAlert_fields [simp]:
  "intervals (showAlert m k d) = intervals d" "next_handle (showAlert m k d) = next_handle d"
  "progressInterval (showAlert m k d) = progressInterval d"
  "currentProcessId (showAlert m k d) = currentProcessId d"
  "d_trace (showAlert m k d) = d_trace d @ [DAlert m k]"
  "d_timers (showAlert m k d) = d_timers d @ [(5000, RemoveAlert (length (d_trace d)))]"
  by (simp_all add: showAlert_def)

lemma updateProgress_fields [simp]:
  "intervals (updateProgress a b d) = intervals d" "next_handle (updateProgress a b d) = next_handle d"
  "progressInterval (updateProgress a b d) = progressInterval d"
  "currentProcessId (updateProgress a b d) = currentProcessId d"
  "d_trace (updateProgress a b d)
     = d_trace d @ [DProgress a b (js_or (currentProcessId d) (JStr ''Not assigned''))]"
  "d_timers (updateProgress a b d) = d_timers d"
  by (simp_all add: updateProgress_def)

lemma clearInterval_fields [simp]:
  "intervals (clearInterval h d) = filter (\<lambda>t. Some (fst t) \<noteq> h) (intervals d)"
  "next_handle (clearInterval h d) = next_handle d"
  "progressInterval (clearInterval h d) = progressInterval d"
  "currentProcessId (clearInterval h d) = currentProcessId d"
  "d_trace (clearInterval h d) = d_trace d" "d_timers (clearInterval h d) = d_timers d"
  by (simp_all add: clearInterval_def)

lemma startProgressMonitoring_fields [simp]:
  "intervals (startProgressMonitoring d) = intervals d @ [(next_handle d, 2000)]"
  "next_handle (startProgressMonitoring d) = Suc (next_handle d)"
  "progressInterval (startProgressMonitoring d) = Some (next_handle d)"
  "currentProcessId (startProgressMonitoring d) = currentProcessId d"
  "d_trace (startProgressMonitoring d) = d_trace d" "d_timers (startProgressMonitoring d) = d_timers d"
  by (simp_all add: startProgressMonitoring_def)

lemma poll_settled_table [simp]:
  "next_handle (poll_settled d r) = next_handle d"
  "progressInterval (poll_settled d r) = progressInterval d"
  "currentProcessId (poll_settled d r) = currentProcessId d"
  by (simp_all add: poll_settled_def switchTab_def Let_def split: fetched.splits)

lemma poll_settled_intervals:
  "intervals (poll_settled d r)
     = (case r of
          Failed msg \<Rightarrow> intervals d
        | Body s \<Rightarrow> if truthy (completed s)
                    then filter (\<lambda>t. Some (fst t) \<noteq> progressInterval d) (intervals d)
                    else intervals d)"
  by (simp add: poll_settled_def switchTab_def Let_def split: fetched.splits)

lemma poll_settled_sends_nothing:
  "requests_of (d_trace (poll_settled d r)) = requests_of (d_trace d)"
  by (simp add: poll_settled_def switchTab_def Let_def requests_of_def split: fetched.splits)

lemma poll_settled_polls:
  "polls_of h (d_trace (poll_settled d r)) = polls_of h (d_trace d)"
  by (simp add: poll_settled_def switchTab_def Let_def polls_of_def split: fetched.splits)

lemma interval_tick_fields [simp]:
  "intervals (interval_tick d h) = intervals d" "next_handle (interval_tick d h) = next_handle d"
  "progressInterval (interval_tick d h) = progressInterval d"
  by (simp_all add: interval_tick_def)

lemma interval_tick_polls:
  "polls_of h (d_trace (interval_tick d i))
     = (if i = h \<and> h \<in> fst ` set (intervals d)
        then polls_of h (d_trace d) @ [DStatusPoll h (currentProcessId d)]
        else polls_of h (d_trace d))"
  by (simp add: interval_tick_def polls_of_def)

lemma cleared_stays_cleared:
  assumes "h < next_handle d" and "h \<notin> fst ` set (intervals d)"
  shows "polls_of h (d_trace (dash_run d evs)) = polls_of h (d_trace d)"
  using assms
proof (induction evs arbitrary: d)
  case Nil
  show ?case by (simp add: dash_run_def)
next
  case (Cons ev evs)
  have step: "h < next_handle (dash_step d ev) \<and> h \<notin> fst ` set (intervals (dash_step d ev))
              \<and> polls_of h (d_trace (dash_step d ev)) = polls_of h (d_trace d)"
  proof (cases ev)
    case (Tick i)
    then show ?thesis using Cons.prems by (simp add: interval_tick_polls)
  next
    case (Settled r)
    then show ?thesis using Cons.prems
      by (cases r) (auto simp add: poll_settled_intervals poll_settled_polls)
  next
    case Restart
    then show ?thesis using Cons.prems by (simp add: polls_of_def)
  qed
  have "polls_of h (d_trace (dash_run (dash_step d ev) evs)) = polls_of h (d_trace (dash_step d ev))"
    using step by (intro Cons.IH) simp_all
  then show ?case using step by (simp add: dash_run_def)
qed

subsection \<open>After a failed upload\<close>

lemma below_cong:
  assumes "length d' = length d" and "\<And>n. n < length d \<Longrightarrow> parent (d' ! n) = parent (d ! n)"
  shows "below d' k a n = below d k a n"
  using assms by (induction k arbitrary: n) (auto split: option.splits)

lemma query_in_cong:
  assumes l: "length d' = length d"
      and par: "\<And>n. n < length d \<Longrightarrow> parent (d' ! n) = parent (d ! n)"
      and P: "\<And>n. n < length d \<Longrightarrow> P (d' ! n) = P (d ! n)"
  shows "query_in d' r P = query_in d r P"
  unfolding query_in_def is_desc_def
  by (rule first_where_cong) (simp_all add: l P below_cong [OF l par])

lemma updateFormState_keeps:
  assumes "j < length d"
  shows "classes (updateFormState d sec s ! j) = classes (d ! j)"
    and "parent (updateFormState d sec s ! j) = parent (d ! j)"
  using assms
  by (simp_all add: updateFormState_def Let_def nth_modify nth_modify_all split: option.splits)

lemma updateFormState_query:
  "query_in (updateFormState d sec s) r (\<lambda>e. has_class e c) = query_in d r (\<lambda>e. has_class e c)"
  by (rule query_in_cong) (simp_all add: updateFormState_keeps has_class_def)

lemma updateFormState_enables:
  assumes s: "s \<noteq> ''completed''" "s \<noteq> ''disabled''"
      and b: "query_in d sec (\<lambda>e. has_class e ''submit-btn'') = Some b"
  shows "\<not> disabled (updateFormState d sec s ! b)"
proof -
  have "b < length d" using query_in_Some [OF b] by simp
  then show ?thesis using s b by (simp add: updateFormState_def Let_def nth_modify)
qed

lemma updateProgressBar_keeps:
  assumes "j < length (doc p)"
  shows "classes (doc (updateProgressBar p) ! j) = classes (doc p ! j)"
    and "parent (doc (updateProgressBar p) ! j) = parent (doc p ! j)"
    and "disabled (doc (updateProgressBar p) ! j) = disabled (doc p ! j)"
  using assms
  by (simp_all add: updateProgressBar_def Let_def nth_modify split: option.splits)

lemma updateSessionStatus_keeps:
  assumes "j < length (doc p)"
  shows "classes (doc (updateSessionStatus p) ! j) = classes (doc p ! j)"
    and "parent (doc (updateSessionStatus p) ! j) = parent (doc p ! j)"
    and "disabled (doc (updateSessionStatus p) ! j) = disabled (doc p ! j)"
  using assms
  by (simp_all add: updateSessionStatus_def nth_modify split: option.splits)

lemma indicators_query:
  "query_in (doc (updateSessionStatus (updateProgressBar p))) r (\<lambda>e. has_class e c)
     = query_in (doc p) r (\<lambda>e. has_class e c)"
  by (rule query_in_cong)
     (simp_all add: updateSessionStatus_keeps updateProgressBar_keeps has_class_def)

lemma indicators_disabled:
  assumes "j < length (doc p)"
  shows "disabled (doc (updateSessionStatus (updateProgressBar p)) ! j) = disabled (doc p ! j)"
  using assms by (simp add: updateSessionStatus_keeps updateProgressBar_keeps)

lemma updateUploadState_shape:
  assumes "has_elements p t" and "getElementById (doc p) (t @ ''-form'') = Some sec"
  shows "\<exists>d6 q. doc (updateUploadState p t s) = doc (updateSessionStatus (updateProgressBar q))
               \<and> doc q = updateFormState d6 sec s"
  using assms
  by (auto simp add: updateUploadState_def has_elements_def Let_def split: option.splits
        intro!: exI [where x = "saveUploadStatus _"])

lemma updateUploadState_enables:
  assumes e: "has_elements p t" and sec: "getElementById (doc p) (t @ ''-form'') = Some sec"
      and s: "s \<noteq> ''completed''" "s \<noteq> ''disabled''"
      and b: "query_in (doc (updateUploadState p t s)) sec (\<lambda>e. has_class e ''submit-btn'') = Some b"
  shows "\<not> disabled (doc (updateUploadState p t s) ! b)"
proof -
  from updateUploadState_shape [OF e sec, of s] obtain d6 q
    where sh: "doc (updateUploadState p t s) = doc (updateSessionStatus (updateProgressBar q))"
      and q: "doc q = updateFormState d6 sec s" by blast
  have b6: "query_in d6 sec (\<lambda>e. has_class e ''submit-btn'') = Some b"
    using b unfolding sh indicators_query q updateFormState_query .
  have "\<not> disabled (doc q ! b)" unfolding q using s b6 by (rule updateFormState_enables)
  moreover have "b < length (doc q)" using query_in_Some [OF b6] unfolding q by simp
  ultimately show ?thesis unfolding sh by (simp add: indicators_disabled)
qed

lemma obj_get_set [simp]: "obj_get (obj_set m k v) k = Some v"
  by (induction m) (auto simp add: obj_get_def)

lemma handleUploadFailure_recovers:
  "trace (handleUploadFailure p t)
     = trace (updateUploadState p t ''available'')
         @ [ToastShown (getUploadDisplayName t @ '' upload failed. Please try again.'') ''error'']"
  "timers (handleUploadFailure p t)
     = timers p @ [(100, ToastFadeIn (length (trace (updateUploadState p t ''available'')))),
                   (4000, ToastFadeOut (length (trace (updateUploadState p t ''available''))))]"
  "FetchPost u \<notin> set (drop (length (trace p)) (trace (handleUploadFailure p t)))"
  "has_elements p t \<Longrightarrow> obj_get (uploadStatus (handleUploadFailure p t)) t = Some ''available''"
  by (simp_all add: handleUploadFailure_def updateUploadState_trace updateUploadState_status)

lemma handleUploadFailure_enables:
  assumes "has_elements p t" and "getElementById (doc p) (t @ ''-form'') = Some sec"
      and "query_in (doc (handleUploadFailure p t)) sec (\<lambda>e. has_class e ''submit-btn'') = Some b"
  shows "\<not> disabled (doc (handleUploadFailure p t) ! b)"
  using assms updateUploadState_enables [of p t sec "''available''" b]
  by (simp add: handleUploadFailure_def)

lemma dash_first_step_fails:
  assumes files: "boundaries d = Some shp" "geotiff d = Some tif"
      and r: "r = Failed msg \<or> (\<exists>b. r = Body b \<and> \<not> truthy (success b)
                                   \<and> msg = to_string (js_or (message b) (JStr ''Upload failed'')))"
  shows "alerts_of (drop (length (d_trace d)) (d_trace (handleFormSubmit d now r any)))
           = [DAlert (''Upload failed: '' @ msg) ''error'']"
    and "requests_of (drop (length (d_trace d)) (d_trace (handleFormSubmit d now r any)))
           = [DRequest ''/geospatial/upload_files/'' [(''geojson'', JStr shp), (''geotiff'', JStr tif)]]"
    and "\<exists>k. d_timers (handleFormSubmit d now r any) = d_timers d @ [(5000, RemoveAlert k)]"
    and "intervals (handleFormSubmit d now r any) = intervals d"
  using files r
  by (auto simp add: handleFormSubmit_def switchTab_def Let_def alerts_of_def requests_of_def)

lemma dash_second_step_fails:
  assumes r: "r = Failed msg \<or> (\<exists>b. r = Body b \<and> \<not> truthy (success b)
                       \<and> msg = to_string (js_or (message b) (JStr ''Processing failed to start'')))"
  shows "alerts_of (drop (length (d_trace d)) (d_trace (startProcessing d r)))
           = [DAlert (''Processing failed: '' @ msg) ''error'']"
    and "requests_of (drop (length (d_trace d)) (d_trace (startProcessing d r)))
           = [DRequest ''/geospatial/api/start_merge/'' [(''process_id'', currentProcessId d)]]"
    and "\<exists>k. d_timers (startProcessing d r) = d_timers d @ [(5000, RemoveAlert k)]"
    and "intervals (startProcessing d r) = intervals d"
  using r
  by (auto simp add: startProcessing_def Let_def alerts_of_def requests_of_def)

section \<open>The claims\<close>



text \<open>
  C9.  \<open>checkAllUploadsCompleted\<close> sets the completion timer (2000 ms) if and only
  if every value of the upload status map is \<open>completed\<close> or \<open>disabled\<close>, and the
  callback of that timer shows the completion toast and the completion modal;
  if some status is \<open>available\<close> or \<open>processing\<close> the page is left as it is.
\<close>

theorem checkAllUploadsCompleted_iff:
  "(checkAllUploadsCompleted p \<noteq> p)
     = (\<forall>s \<in> set (obj_values (uploadStatus p)). s = ''completed'' \<or> s = ''disabled'')
   \<and> ((\<forall>s \<in> set (obj_values (uploadStatus p)). s = ''completed'' \<or> s = ''disabled'') \<longrightarrow>
        timers (checkAllUploadsCompleted p) = timers p @ [(2000, AllUploadsCompleted)]
        \<and> trace (checkAllUploadsCompleted p) = trace p)
   \<and> ((\<exists>s \<in> set (obj_values (uploadStatus p)). s = ''available'' \<or> s = ''processing'') \<longrightarrow>
        checkAllUploadsCompleted p = p)
   \<and> trace (run_action q AllUploadsCompleted)
       = trace q @ [ToastShown (sym_party @ '' All uploads completed successfully!'') ''success'',
                    ModalShown]"
proof (intro conjI impI)
  show "(checkAllUploadsCompleted p \<noteq> p)
     = (\<forall>s \<in> set (obj_values (uploadStatus p)). s = ''completed'' \<or> s = ''disabled'')"
    using add_timer_neq [of p "(2000, AllUploadsCompleted)"]
    by (simp add: checkAllUploadsCompleted_def setTimeout_def all_done_iff)
next
  assume "\<forall>s \<in> set (obj_values (uploadStatus p)). s = ''completed'' \<or> s = ''disabled''"
  then have "all_done (uploadStatus p)" by (simp add: all_done_iff)
  then show "timers (checkAllUploadsCompleted p) = timers p @ [(2000, AllUploadsCompleted)]"
    and "trace (checkAllUploadsCompleted p) = trace p"
    by (simp_all add: checkAllUploadsCompleted_def setTimeout_def)
next
  assume "\<exists>s \<in> set (obj_values (uploadStatus p)). s = ''available'' \<or> s = ''processing''"
  then have "\<not> all_done (uploadStatus p)" by (rule not_all_done)
  then show "checkAllUploadsCompleted p = p"
    by (simp add: checkAllUploadsCompleted_def)
next
  show "trace (run_action q AllUploadsCompleted)
       = trace q @ [ToastShown (sym_party @ '' All uploads completed successfully!'') ''success'',
                    ModalShown]"
    by (simp add: run_action_def showCompletionModal_def showToast_def emit_def setTimeout_def
          Let_def)
qed

theorem checkAllUploadsCompleted_iff_witness:
  "timers (checkAllUploadsCompleted done_page) = timers done_page @ [(2000, AllUploadsCompleted)]
   \<and> checkAllUploadsCompleted sample_page = sample_page"
proof -
  have a: "\<forall>s \<in> set (obj_values (uploadStatus done_page)). s = ''completed'' \<or> s = ''disabled''"
    by code_simp
  have b: "\<exists>s \<in> set (obj_values (uploadStatus sample_page)). s = ''available'' \<or> s = ''processing''"
    by code_simp
  have c: "timers (checkAllUploadsCompleted done_page) = timers done_page @ [(2000, AllUploadsCompleted)]"
    using a checkAllUploadsCompleted_iff [of done_page] by blast
  have d: "checkAllUploadsCompleted sample_page = sample_page"
    using b checkAllUploadsCompleted_iff [of sample_page] by blast
  show ?thesis using c d by simp
qed

text \<open>
  C6.  Round trip: whatever upload status map (an object, so with distinct
  keys) \<open>saveUploadStatus\<close> has written, \<open>loadUploadStatus\<close> on a page that finds
  that entry in its session storage (the same page, or the page after a
  reload, with any document and any value of the variable) returns normally
  with \<open>uploadStatus\<close> equal to the saved map.
\<close>

theorem save_load_roundtrip:
  assumes "distinct (obj_keys (uploadStatus p))"
      and "sessionStorage r ''uploadStatus'' = sessionStorage (saveUploadStatus p) ''uploadStatus''"
  shows "\<exists>q. loadUploadStatus r = Inr q \<and> uploadStatus q = uploadStatus p"
proof -
  have st: "sessionStorage r ''uploadStatus'' = Some (JSON_stringify (uploadStatus p))"
    using assms(2) by simp
  have parse: "JSON_parse (JSON_stringify (uploadStatus p)) = Some (uploadStatus p)"
    using assms(1) by (intro JSON_roundtrip) (simp add: obj_keys_def)
  have "loadUploadStatus r = Inr (updateAllUploadStates (r\<lparr>uploadStatus := uploadStatus p\<rparr>))"
    using st parse JSON_stringify_nonempty [of "uploadStatus p"]
    by (simp add: loadUploadStatus_def)
  then show ?thesis by (simp add: updateAllUploadStates_status)
qed

theorem save_load_roundtrip_witness:
  "\<exists>q. loadUploadStatus ((saveUploadStatus done_page)\<lparr>uploadStatus := initial_status\<rparr>) = Inr q
       \<and> uploadStatus q = uploadStatus done_page"
proof -
  have d: "distinct (obj_keys (uploadStatus done_page))" by code_simp
  have s: "sessionStorage ((saveUploadStatus done_page)\<lparr>uploadStatus := initial_status\<rparr>) ''uploadStatus''
             = sessionStorage (saveUploadStatus done_page) ''uploadStatus''" by simp
  show ?thesis using save_load_roundtrip [OF d s] .
qed

text \<open>
  C2 (as amended).  Called for one of the four category names, and
  \<open>updateUploadState\<close> with one of the four status labels, every operation that
  writes the upload status map (\<open>updateUploadState\<close>, \<open>handleUploadSuccess\<close>,
  \<open>handleUploadFailure\<close>, \<open>handleFormSubmission\<close> on a form whose submit button
  names the category, \<open>resetAllUploads\<close>) keeps the map a mapping from the four
  category names to the four status labels.  \<open>saveUploadStatus\<close> leaves the map
  as it is and stores its JSON text, which parses back to exactly this map,
  under the key \<open>uploadStatus\<close>; after an \<open>updateUploadState\<close> that found its
  elements the stored text is that of the new map.
\<close>

theorem status_map_invariant:
  assumes inv: "status_inv (uploadStatus p)"
      and t: "uploadType \<in> set categories"
      and s: "status \<in> set labels"
  shows "status_inv (uploadStatus (updateUploadState p uploadType status))
       \<and> status_inv (uploadStatus (handleUploadSuccess p uploadType))
       \<and> status_inv (uploadStatus (handleUploadFailure p uploadType))
       \<and> (form_upload_type p form = Some uploadType \<longrightarrow>
            (\<exists>q. handleFormSubmission p form = Inr q \<and> status_inv (uploadStatus q)))
       \<and> (form_upload_type p form = None \<or> form_upload_type p form = Some [] \<longrightarrow>
            (\<forall>q. handleFormSubmission p form = Inr q \<longrightarrow> uploadStatus q = uploadStatus p))
       \<and> status_inv (uploadStatus (resetAllUploads p))
       \<and> uploadStatus (saveUploadStatus p) = uploadStatus p
       \<and> sessionStorage (saveUploadStatus p) ''uploadStatus'' = Some (JSON_stringify (uploadStatus p))
       \<and> JSON_parse (JSON_stringify (uploadStatus p)) = Some (uploadStatus p)
       \<and> (has_elements p uploadType \<longrightarrow>
            sessionStorage (updateUploadState p uploadType status) ''uploadStatus''
              = Some (JSON_stringify (uploadStatus (updateUploadState p uploadType status))))"
proof (intro conjI impI allI)
  show "status_inv (uploadStatus (updateUploadState p uploadType status))"
    using inv t s by (rule status_inv_update)
  show "status_inv (uploadStatus (handleUploadSuccess p uploadType))"
    using status_inv_update [OF inv t label_completed]
    by (simp add: handleUploadSuccess_def Let_def)
  show "status_inv (uploadStatus (handleUploadFailure p uploadType))"
    using status_inv_update [OF inv t label_available]
    by (simp add: handleUploadFailure_def)
  show "status_inv (uploadStatus (resetAllUploads p))"
    using status_inv_fold [of "obj_keys (uploadStatus p)" "''available''" p] inv label_available
    by (simp add: resetAllUploads_def status_inv_def)
  show "uploadStatus (saveUploadStatus p) = uploadStatus p" by simp
  show "sessionStorage (saveUploadStatus p) ''uploadStatus'' = Some (JSON_stringify (uploadStatus p))"
    by simp
  show "JSON_parse (JSON_stringify (uploadStatus p)) = Some (uploadStatus p)"
    using inv by (intro JSON_roundtrip) (simp add: status_inv_def obj_keys_def categories_def)
next
  assume f: "form_upload_type p form = Some uploadType"
  then obtain b where b: "query_in (doc p) form (\<lambda>e. has_class e ''submit-btn'') = Some b"
    and bt: "data_upload_type (doc p ! b) = Some uploadType"
    by (auto simp add: form_upload_type_def split: option.splits)
  have ne: "uploadType \<noteq> []" using t by (rule category_nonempty)
  show "\<exists>q. handleFormSubmission p form = Inr q \<and> status_inv (uploadStatus q)"
    using b bt ne status_inv_update [OF inv t label_processing]
    by (simp add: handleFormSubmission_def Let_def)
next
  fix q
  assume "form_upload_type p form = None \<or> form_upload_type p form = Some []"
    and "handleFormSubmission p form = Inr q"
  then show "uploadStatus q = uploadStatus p"
    using handleFormSubmission_silent [of p form] by auto
next
  assume "has_elements p uploadType"
  then show "sessionStorage (updateUploadState p uploadType status) ''uploadStatus''
              = Some (JSON_stringify (uploadStatus (updateUploadState p uploadType status)))"
    by (simp add: updateUploadState_status updateUploadState_storage)
qed

theorem status_map_invariant_witness:
  "status_inv (uploadStatus sample_page)
   \<and> status_inv (uploadStatus (updateUploadState sample_page ''temperature'' ''completed''))
   \<and> status_inv (uploadStatus (handleUploadFailure sample_page ''temperature''))
   \<and> (\<exists>q. handleFormSubmission sample_page 2 = Inr q \<and> status_inv (uploadStatus q))
   \<and> status_inv (uploadStatus (resetAllUploads sample_page))
   \<and> sessionStorage (updateUploadState sample_page ''temperature'' ''completed'') ''uploadStatus''
       = Some (JSON_stringify (uploadStatus (updateUploadState sample_page ''temperature'' ''completed'')))"
proof -
  have inv: "status_inv (uploadStatus sample_page)" by code_simp
  have t: "''temperature'' \<in> set categories" by (simp add: categories_def)
  have f: "form_upload_type sample_page 2 = Some ''temperature''" by code_simp
  have e: "has_elements sample_page ''temperature''" by code_simp
  show ?thesis
    using inv e f status_map_invariant [OF inv t label_completed, of 2] by blast
qed

text \<open>
  As the claim states it, for every call, the invariant fails: the functions
  take any upload type that has elements in the document and any status.  On
  a page with a fifth category, submitting its form adds a fifth key to the
  map; and \<open>updateUploadState\<close> stores whatever status it is given.
\<close>

theorem status_map_invariant_counterexample:
  "status_inv (uploadStatus slope_page)
   \<and> status_after (handleFormSubmission slope_page 2)
       = Some (initial_status @ [(''slope'', ''processing'')])
   \<and> \<not> status_inv (initial_status @ [(''slope'', ''processing'')])
   \<and> status_inv (uploadStatus sample_page)
   \<and> obj_get (uploadStatus (updateUploadState sample_page ''temperature'' ''paused''))
         ''temperature'' = Some ''paused''
   \<and> \<not> status_inv (uploadStatus (updateUploadState sample_page ''temperature'' ''paused''))"
proof -
  have a: "status_inv (uploadStatus slope_page)" by code_simp
  have b: "status_after (handleFormSubmission slope_page 2)
             = Some (initial_status @ [(''slope'', ''processing'')])" by code_simp
  have c: "\<not> status_inv (initial_status @ [(''slope'', ''processing'')])" by code_simp
  have d: "status_inv (uploadStatus sample_page)" by code_simp
  have e: "obj_get (uploadStatus (updateUploadState sample_page ''temperature'' ''paused''))
             ''temperature'' = Some ''paused''" by code_simp
  have f: "\<not> status_inv (uploadStatus (updateUploadState sample_page ''temperature'' ''paused''))"
    by code_simp
  show ?thesis using a b c d e f by simp
qed




text \<open>
  C8.  The \<open>formatFileSize\<close> of \<open>dashboard.js\<close> and the \<open>formatFileSize\<close> of
  \<open>user-upload_app.js\<close> return the same string for every byte count, whatever
  the number operations of the platform compute.
\<close>

theorem formatFileSize_agree:
  "formatFileSize_dashboard M bytes = formatFileSize_upload M bytes"
  by (simp add: formatFileSize_dashboard_def formatFileSize_upload_def)



text \<open>
  C1 (as amended).  \<open>startProgressMonitoring\<close> registers one interval with the
  fixed period of 2000 ms and stores its handle in \<open>progressInterval\<close>; a firing
  of a running interval issues exactly one status poll; however a poll ends,
  the rest of the callback sends no request and changes no period (no retry,
  no backoff), and a failed poll leaves the timer table as it is.  On a reply
  whose \<open>completed\<close> field is truthy the interval whose handle is in
  \<open>progressInterval\<close> is cleared whatever the \<open>error\<close> field holds.  So for the
  monitor whose handle \<open>progressInterval\<close> still holds, no further status poll
  is issued after \<open>completed\<close> has been observed, whatever happens later.
\<close>

theorem progress_monitor_polling:
  "intervals (startProgressMonitoring d) = intervals d @ [(next_handle d, 2000)]
   \<and> progressInterval (startProgressMonitoring d) = Some (next_handle d)
   \<and> (h \<in> fst ` set (intervals d) \<longrightarrow>
        d_trace (interval_tick d h) = d_trace d @ [DStatusPoll h (currentProcessId d)])
   \<and> (h \<notin> fst ` set (intervals d) \<longrightarrow> interval_tick d h = d)
   \<and> requests_of (d_trace (poll_settled d r)) = requests_of (d_trace d)
   \<and> set (intervals (poll_settled d r)) \<subseteq> set (intervals d)
   \<and> intervals (poll_settled d (Failed msg)) = intervals d
   \<and> (truthy (completed s) \<longrightarrow>
        intervals (poll_settled d (Body s))
          = filter (\<lambda>t. Some (fst t) \<noteq> progressInterval d) (intervals d))
   \<and> (handles_ok d \<and> progressInterval d = Some h \<and> truthy (completed s) \<longrightarrow>
        (\<forall>evs. polls_of h (d_trace (dash_run (poll_settled d (Body s)) evs))
                 = polls_of h (d_trace d)))"
proof (intro conjI impI allI)
  show "intervals (startProgressMonitoring d) = intervals d @ [(next_handle d, 2000)]" by simp
  show "progressInterval (startProgressMonitoring d) = Some (next_handle d)" by simp
  show "requests_of (d_trace (poll_settled d r)) = requests_of (d_trace d)"
    by (rule poll_settled_sends_nothing)
  show "set (intervals (poll_settled d r)) \<subseteq> set (intervals d)"
    by (cases r) (auto simp add: poll_settled_intervals)
  show "intervals (poll_settled d (Failed msg)) = intervals d"
    by (simp add: poll_settled_intervals)
next
  assume "h \<in> fst ` set (intervals d)"
  then show "d_trace (interval_tick d h) = d_trace d @ [DStatusPoll h (currentProcessId d)]"
    by (simp add: interval_tick_def)
next
  assume "h \<notin> fst ` set (intervals d)"
  then show "interval_tick d h = d" by (simp add: interval_tick_def)
next
  assume "truthy (completed s)"
  then show "intervals (poll_settled d (Body s))
          = filter (\<lambda>t. Some (fst t) \<noteq> progressInterval d) (intervals d)"
    by (simp add: poll_settled_intervals)
next
  fix evs
  assume a: "handles_ok d \<and> progressInterval d = Some h \<and> truthy (completed s)"
  then have lt: "h < next_handle (poll_settled d (Body s))" by (auto simp add: handles_ok_def)
  have off: "h \<notin> fst ` set (intervals (poll_settled d (Body s)))"
    using a by (auto simp add: poll_settled_intervals)
  show "polls_of h (d_trace (dash_run (poll_settled d (Body s)) evs)) = polls_of h (d_trace d)"
    using cleared_stays_cleared [OF lt off, of evs] by (simp add: poll_settled_polls)
qed

theorem progress_monitor_polling_witness:
  "d_trace (interval_tick submitted_once 0)
     = d_trace submitted_once @ [DStatusPoll 0 (currentProcessId submitted_once)]
   \<and> intervals (poll_settled submitted_once (Body finished_reply)) = []
   \<and> polls_of 0 (d_trace (dash_run (poll_settled submitted_once (Body finished_reply))
                               [Tick 0, Restart, Tick 0, Tick 1]))
       = polls_of 0 (d_trace submitted_once)"
proof -
  have a: "0 \<in> fst ` set (intervals submitted_once)" by code_simp
  have b: "handles_ok submitted_once" by code_simp
  have c: "progressInterval submitted_once = Some 0" by code_simp
  have e: "truthy (completed finished_reply)" by code_simp
  have f: "filter (\<lambda>t. Some (fst t) \<noteq> progressInterval submitted_once) (intervals submitted_once)
             = []" by code_simp
  show ?thesis
    using a b c e f progress_monitor_polling [of submitted_once 0 _ _ finished_reply]
    by simp
qed

text \<open>
  As the claim states it, for every monitor that \<open>startProgressMonitoring\<close> has
  started, it fails: a second submission starts a second interval and
  overwrites \<open>progressInterval\<close>, so the callback of the first interval clears
  the second one, and the first goes on polling after it has seen
  \<open>completed\<close>.
\<close>

theorem progress_monitor_counterexample:
  "truthy (completed finished_reply)
   \<and> polls_of 0 (d_trace (dash_run submitted_twice [Tick 0, Settled (Body finished_reply)]))
       = [DStatusPoll 0 (JStr ''p1'')]
   \<and> polls_of 0 (d_trace (dash_run submitted_twice
                              [Tick 0, Settled (Body finished_reply), Tick 0]))
       = [DStatusPoll 0 (JStr ''p1''), DStatusPoll 0 (JStr ''p1'')]"
proof -
  have a: "truthy (completed finished_reply)" by code_simp
  have b: "polls_of 0 (d_trace (dash_run submitted_twice [Tick 0, Settled (Body finished_reply)]))
             = [DStatusPoll 0 (JStr ''p1'')]" by code_simp
  have c: "polls_of 0 (d_trace (dash_run submitted_twice
                                  [Tick 0, Settled (Body finished_reply), Tick 0]))
             = [DStatusPoll 0 (JStr ''p1''), DStatusPoll 0 (JStr ''p1'')]" by code_simp
  show ?thesis using a b c by simp
qed

text \<open>
  C5.  In the two-step flow of the dashboard, with both files chosen: when the
  reply to the upload has a truthy \<open>success\<close>, \<open>handleFormSubmit\<close> stores its
  \<open>process_id\<close> in \<open>currentProcessId\<close>, shows progress 50 and posts that same
  process id to \<open>/geospatial/api/start_merge/\<close>; when the second reply has a
  truthy \<open>success\<close>, progress 75 is shown and the progress monitor starts.  A
  falsy \<open>success\<close> in either step takes the error path with the reply's
  \<open>message\<close>, or the default message when that is falsy: the first step
  without storing a process id or posting again, the second without starting
  the monitor.
\<close>

theorem two_step_upload_flow:
  assumes files: "boundaries d = Some shp" "geotiff d = Some tif"
      and before: "before = d_trace d @
             [DSwitchTab ''process'', DShowPanel ''progressPanel'', DShowPanel ''coordinateInfo'',
              DProgress (JNum 0) (JStr ''Starting upload...'')
                (js_or (currentProcessId d) (JStr ''Not assigned'')),
              DProgress (JNum 25) (JStr ''Uploading files...'')
                (js_or (currentProcessId d) (JStr ''Not assigned'')),
              DRequest ''/geospatial/upload_files/'' [(''geojson'', JStr shp), (''geotiff'', JStr tif)]]"
      and merge: "merge = before @
             [DProgress (JNum 50) (JStr ''Files uploaded successfully'')
                (js_or (process_id ra) (JStr ''Not assigned'')),
              DRequest ''/geospatial/api/start_merge/'' [(''process_id'', process_id ra)]]"
      and ma: "ma = to_string (js_or (message ra) (JStr ''Upload failed''))"
      and mb: "mb = to_string (js_or (message rb) (JStr ''Processing failed to start''))"
  shows "(truthy (success ra) \<longrightarrow>
            currentProcessId (handleFormSubmit d now (Body ra) (Body rb)) = process_id ra)
       \<and> (truthy (success ra) \<and> truthy (success rb) \<longrightarrow>
            d_trace (handleFormSubmit d now (Body ra) (Body rb))
              = merge @ [DProgress (JNum 75) (JStr ''Processing started...'')
                           (js_or (process_id ra) (JStr ''Not assigned''))]
            \<and> intervals (handleFormSubmit d now (Body ra) (Body rb))
                = intervals d @ [(next_handle d, 2000)]
            \<and> progressInterval (handleFormSubmit d now (Body ra) (Body rb)) = Some (next_handle d))
       \<and> (truthy (success ra) \<and> \<not> truthy (success rb) \<longrightarrow>
            d_trace (handleFormSubmit d now (Body ra) (Body rb))
              = merge @ [DConsoleError ''Processing error:'' mb,
                         DAlert (''Processing failed: '' @ mb) ''error'']
            \<and> intervals (handleFormSubmit d now (Body ra) (Body rb)) = intervals d
            \<and> progressInterval (handleFormSubmit d now (Body ra) (Body rb)) = progressInterval d)
       \<and> (\<not> truthy (success ra) \<longrightarrow>
            d_trace (handleFormSubmit d now (Body ra) any)
              = before @ [DConsoleError ''Upload error:'' ma,
                          DAlert (''Upload failed: '' @ ma) ''error'',
                          DProgress (JNum 0) (JStr ''Upload failed'')
                            (js_or (currentProcessId d) (JStr ''Not assigned''))]
            \<and> currentProcessId (handleFormSubmit d now (Body ra) any) = currentProcessId d
            \<and> intervals (handleFormSubmit d now (Body ra) any) = intervals d)"
  using files
  unfolding before merge ma mb
  by (simp add: handleFormSubmit_def startProcessing_def switchTab_def Let_def)

theorem two_step_upload_flow_witness:
  "currentProcessId (handleFormSubmit ready_dash 1000 (Body ok_reply) (Body ok_reply)) = JStr ''p1''
   \<and> intervals (handleFormSubmit ready_dash 1000 (Body ok_reply) (Body ok_reply)) = [(0, 2000)]
   \<and> d_trace (handleFormSubmit ready_dash 1000 (Body failed_reply) (Body ok_reply))
       = [DSwitchTab ''process'', DShowPanel ''progressPanel'', DShowPanel ''coordinateInfo'',
          DProgress (JNum 0) (JStr ''Starting upload...'') (JStr ''Not assigned''),
          DProgress (JNum 25) (JStr ''Uploading files...'') (JStr ''Not assigned''),
          DRequest ''/geospatial/upload_files/''
            [(''geojson'', JStr ''rwanda.zip''), (''geotiff'', JStr ''slope.tif'')],
          DConsoleError ''Upload error:'' ''bad archive'',
          DAlert ''Upload failed: bad archive'' ''error'',
          DProgress (JNum 0) (JStr ''Upload failed'') (JStr ''Not assigned'')]"
proof -
  have f: "boundaries ready_dash = Some ''rwanda.zip''" "geotiff ready_dash = Some ''slope.tif''"
    by (simp_all add: ready_dash_def initial_dash_def)
  have v: "truthy (success ok_reply)" "\<not> truthy (success failed_reply)"
    "process_id ok_reply = JStr ''p1''" "message failed_reply = JStr ''bad archive''"
    "d_trace ready_dash = []" "intervals ready_dash = []" "next_handle ready_dash = 0"
    "currentProcessId ready_dash = JNull"
    by (simp_all add: ok_reply_def failed_reply_def ready_dash_def initial_dash_def)
  show ?thesis
    using v two_step_upload_flow [where ra = ok_reply and rb = ok_reply and now = 1000,
            OF f refl refl refl refl]
          two_step_upload_flow [where ra = failed_reply and rb = ok_reply and now = 1000
            and any = "Body ok_reply", OF f refl refl refl refl]
    by (simp add: js_or_def)
qed

text \<open>
  C3 (as amended).  For the requests that submit an upload (the form POST of
  the user page, and the \<open>upload_files\<close> and \<open>start_merge\<close> POSTs of the
  dashboard), whenever the request is rejected or the \<open>success\<close> field of the
  parsed reply is falsy, the client shows one timed toast or alert of kind
  \<open>error\<close> and issues no further request.  On the user page the failure
  handler is \<open>handleUploadFailure\<close>: the toast fades out after 4000 ms and is
  removed 300 ms later, and where the upload's sidebar item and form section
  exist the upload's status is reset to \<open>available\<close> and the submit button of
  the section is enabled again.  On the dashboard the alert is removed after
  5000 ms, only the request that failed has been sent, and no monitor is
  started.
\<close>

theorem upload_failure_handling:
  "((outcome = Rejected \<or> (\<exists>sv. outcome = Answered sv \<and> \<not> truthy sv)) \<longrightarrow>
       upload_settled p t outcome = handleUploadFailure p t
       \<and> trace (upload_settled p t outcome)
           = trace (updateUploadState p t ''available'')
               @ [ToastShown (getUploadDisplayName t @ '' upload failed. Please try again.'') ''error'']
       \<and> timers (upload_settled p t outcome)
           = timers p @ [(100, ToastFadeIn (length (trace (updateUploadState p t ''available'')))),
                         (4000, ToastFadeOut (length (trace (updateUploadState p t ''available''))))]
       \<and> (\<forall>u. FetchPost u \<notin> set (drop (length (trace p)) (trace (upload_settled p t outcome))))
       \<and> (has_elements p t \<longrightarrow>
             obj_get (uploadStatus (upload_settled p t outcome)) t = Some ''available'')
       \<and> (has_elements p t \<and> getElementById (doc p) (t @ ''-form'') = Some sec
             \<and> query_in (doc (upload_settled p t outcome)) sec (\<lambda>e. has_class e ''submit-btn'')
                 = Some b
           \<longrightarrow> \<not> disabled (doc (upload_settled p t outcome) ! b)))
   \<and> timers (run_action q (ToastFadeOut n)) = timers q @ [(300, ToastRemove n)]
   \<and> (boundaries d = Some shp \<and> geotiff d = Some tif
        \<and> (ra = Failed ma \<or> (\<exists>body. ra = Body body \<and> \<not> truthy (success body)
                \<and> ma = to_string (js_or (message body) (JStr ''Upload failed''))))
      \<longrightarrow> alerts_of (drop (length (d_trace d)) (d_trace (handleFormSubmit d now ra any)))
            = [DAlert (''Upload failed: '' @ ma) ''error'']
        \<and> requests_of (drop (length (d_trace d)) (d_trace (handleFormSubmit d now ra any)))
            = [DRequest ''/geospatial/upload_files/''
                 [(''geojson'', JStr shp), (''geotiff'', JStr tif)]]
        \<and> (\<exists>k. d_timers (handleFormSubmit d now ra any) = d_timers d @ [(5000, RemoveAlert k)])
        \<and> intervals (handleFormSubmit d now ra any) = intervals d)
   \<and> ((rb = Failed mb \<or> (\<exists>body. rb = Body body \<and> \<not> truthy (success body)
                \<and> mb = to_string (js_or (message body) (JStr ''Processing failed to start''))))
      \<longrightarrow> alerts_of (drop (length (d_trace d)) (d_trace (startProcessing d rb)))
            = [DAlert (''Processing failed: '' @ mb) ''error'']
        \<and> requests_of (drop (length (d_trace d)) (d_trace (startProcessing d rb)))
            = [DRequest ''/geospatial/api/start_merge/'' [(''process_id'', currentProcessId d)]]
        \<and> (\<exists>k. d_timers (startProcessing d rb) = d_timers d @ [(5000, RemoveAlert k)])
        \<and> intervals (startProcessing d rb) = intervals d)"
proof (intro conjI impI)
  assume f: "outcome = Rejected \<or> (\<exists>sv. outcome = Answered sv \<and> \<not> truthy sv)"
  then show s: "upload_settled p t outcome = handleUploadFailure p t"
    by (auto simp add: upload_settled_def)
  show "trace (upload_settled p t outcome)
           = trace (updateUploadState p t ''available'')
               @ [ToastShown (getUploadDisplayName t @ '' upload failed. Please try again.'') ''error'']"
    unfolding s by (rule handleUploadFailure_recovers)
  show "timers (upload_settled p t outcome)
           = timers p @ [(100, ToastFadeIn (length (trace (updateUploadState p t ''available'')))),
                         (4000, ToastFadeOut (length (trace (updateUploadState p t ''available''))))]"
    unfolding s by (rule handleUploadFailure_recovers)
  show "\<forall>u. FetchPost u \<notin> set (drop (length (trace p)) (trace (upload_settled p t outcome)))"
    unfolding s using handleUploadFailure_recovers(3) [of _ p t] by blast
  {
    assume "has_elements p t"
    then show "obj_get (uploadStatus (upload_settled p t outcome)) t = Some ''available''"
      unfolding s by (rule handleUploadFailure_recovers)
  }
  {
    assume "has_elements p t \<and> getElementById (doc p) (t @ ''-form'') = Some sec
             \<and> query_in (doc (upload_settled p t outcome)) sec (\<lambda>e. has_class e ''submit-btn'')
                 = Some b"
    then show "\<not> disabled (doc (upload_settled p t outcome) ! b)"
      unfolding s using handleUploadFailure_enables [of p t sec b] by blast
  }
next
  show "timers (run_action q (ToastFadeOut n)) = timers q @ [(300, ToastRemove n)]"
    by (simp add: run_action_def)
next
  assume a: "boundaries d = Some shp \<and> geotiff d = Some tif
        \<and> (ra = Failed ma \<or> (\<exists>body. ra = Body body \<and> \<not> truthy (success body)
                \<and> ma = to_string (js_or (message body) (JStr ''Upload failed''))))"
  then have f: "boundaries d = Some shp" "geotiff d = Some tif"
    and r: "ra = Failed ma \<or> (\<exists>body. ra = Body body \<and> \<not> truthy (success body)
                \<and> ma = to_string (js_or (message body) (JStr ''Upload failed'')))"
    by simp_all
  show "alerts_of (drop (length (d_trace d)) (d_trace (handleFormSubmit d now ra any)))
            = [DAlert (''Upload failed: '' @ ma) ''error'']"
    using f r by (rule dash_first_step_fails)
  show "requests_of (drop (length (d_trace d)) (d_trace (handleFormSubmit d now ra any)))
            = [DRequest ''/geospatial/upload_files/''
                 [(''geojson'', JStr shp), (''geotiff'', JStr tif)]]"
    using f r by (rule dash_first_step_fails)
  show "\<exists>k. d_timers (handleFormSubmit d now ra any) = d_timers d @ [(5000, RemoveAlert k)]"
    using f r by (rule dash_first_step_fails)
  show "intervals (handleFormSubmit d now ra any) = intervals d"
    using f r by (rule dash_first_step_fails)
next
  assume r: "rb = Failed mb \<or> (\<exists>body. rb = Body body \<and> \<not> truthy (success body)
                \<and> mb = to_string (js_or (message body) (JStr ''Processing failed to start'')))"
  show "alerts_of (drop (length (d_trace d)) (d_trace (startProcessing d rb)))
            = [DAlert (''Processing failed: '' @ mb) ''error'']"
    using r by (rule dash_second_step_fails)
  show "requests_of (drop (length (d_trace d)) (d_trace (startProcessing d rb)))
            = [DRequest ''/geospatial/api/start_merge/'' [(''process_id'', currentProcessId d)]]"
    using r by (rule dash_second_step_fails)
  show "\<exists>k. d_timers (startProcessing d rb) = d_timers d @ [(5000, RemoveAlert k)]"
    using r by (rule dash_second_step_fails)
  show "intervals (startProcessing d rb) = intervals d"
    using r by (rule dash_second_step_fails)
qed

theorem upload_failure_handling_witness:
  "upload_settled sample_page ''temperature'' (Answered (JBool False))
     = handleUploadFailure sample_page ''temperature''
   \<and> obj_get (uploadStatus (upload_settled sample_page ''temperature'' (Answered (JBool False))))
         ''temperature'' = Some ''available''
   \<and> \<not> disabled (doc (upload_settled sample_page ''temperature'' (Answered (JBool False))) ! 4)
   \<and> alerts_of (drop (length (d_trace ready_dash))
                  (d_trace (handleFormSubmit ready_dash 1000 (Body failed_reply) (Body ok_reply))))
       = [DAlert (''Upload failed: '' @ ''bad archive'') ''error'']"
proof -
  have o: "Answered (JBool False) = Rejected
             \<or> (\<exists>sv. Answered (JBool False) = Answered sv \<and> \<not> truthy sv)" by simp
  have e: "has_elements sample_page ''temperature''" by code_simp
  have g: "getElementById (doc sample_page) (''temperature'' @ ''-form'') = Some 1" by code_simp
  have b: "query_in (doc (upload_settled sample_page ''temperature'' (Answered (JBool False)))) 1
             (\<lambda>e. has_class e ''submit-btn'') = Some 4" by code_simp
  have f: "boundaries ready_dash = Some ''rwanda.zip''" "geotiff ready_dash = Some ''slope.tif''"
    by (simp_all add: ready_dash_def initial_dash_def)
  have r: "Body failed_reply = Failed ''bad archive''
             \<or> (\<exists>body. Body failed_reply = Body body \<and> \<not> truthy (success body)
                   \<and> ''bad archive'' = to_string (js_or (message body) (JStr ''Upload failed'')))"
    by (simp add: failed_reply_def js_or_def)
  show ?thesis
    using o e g b f r
      upload_failure_handling [where outcome = "Answered (JBool False)" and p = sample_page
        and t = "''temperature''" and sec = 1 and b = 4 and d = ready_dash
        and shp = "''rwanda.zip''" and tif = "''slope.tif''" and ra = "Body failed_reply"
        and ma = "''bad archive''" and now = 1000 and any = "Body ok_reply"]
    by blast
qed

text \<open>
  As the claim states it, across every failure branch of the scripts' fetch
  handling, it fails: when a status poll of the dashboard is rejected, the
  callback only writes to the console.  No alert is shown, the interval keeps
  running, and its next firing sends the status request again.
\<close>

theorem upload_failure_handling_counterexample:
  "d_trace (poll_settled submitted_once (Failed ''Failed to fetch''))
     = d_trace submitted_once @ [DConsoleError ''Progress check error:'' ''Failed to fetch'']
   \<and> alerts_of (drop (length (d_trace submitted_once))
                  (d_trace (poll_settled submitted_once (Failed ''Failed to fetch'')))) = []
   \<and> intervals (poll_settled submitted_once (Failed ''Failed to fetch'')) = [(0, 2000)]
   \<and> requests_of (drop (length (d_trace submitted_once))
        (d_trace (interval_tick (poll_settled submitted_once (Failed ''Failed to fetch'')) 0)))
       = [DStatusPoll 0 (JStr ''p1'')]"
proof -
  have a: "d_trace (poll_settled submitted_once (Failed ''Failed to fetch''))
     = d_trace submitted_once @ [DConsoleError ''Progress check error:'' ''Failed to fetch'']"
    by code_simp
  have b: "alerts_of (drop (length (d_trace submitted_once))
                  (d_trace (poll_settled submitted_once (Failed ''Failed to fetch'')))) = []"
    by code_simp
  have c: "intervals (poll_settled submitted_once (Failed ''Failed to fetch'')) = [(0, 2000)]"
    by code_simp
  have d: "requests_of (drop (length (d_trace submitted_once))
        (d_trace (interval_tick (poll_settled submitted_once (Failed ''Failed to fetch'')) 0)))
       = [DStatusPoll 0 (JStr ''p1'')]"
    by code_simp
  show ?thesis using a b c d by simp
qed


end
